theory Spec2Isabelle
  imports Main "HOL-Library.Word"
begin

section \<open>Go values\<close>

text \<open>
  The bundle simulator is Go code. Fixed-width integers are words (\<open>uint64\<close> and
  \<open>int64\<close> share the bit pattern; \<open>unat\<close> reads the first, \<open>sint\<close> the second),
  \<open>*big.Int\<close> is \<open>int\<close>, a nil-able pointer is an \<open>option\<close>, \<open>[]byte\<close> is a list of
  bytes. A \<open>common.Hash\<close> is 32 bytes and a \<open>common.Address\<close> 20 bytes, read big-endian.
\<close>

type_synonym byte = "8 word"
type_synonym uint64 = "64 word"
type_synonym int64 = "64 word"
type_synonym uint256 = "256 word"
type_synonym address = "160 word"
type_synonym hash = "256 word"

datatype ctx_error = Canceled | DeadlineExceeded

text \<open>
  Go \<open>error\<close> values: \<open>errors.New\<close>, an error handed back by a collaborator (decoder,
  state access, execution engine, virtual machine), \<open>ctx.Err()\<close>, and the wrapping
  \<open>fmt.Errorf("err: %w; txhash %s", err, tx.Hash())\<close>.
\<close>

datatype error =
    ErrorsNew string
  | Collaborator string
  | ContextErr ctx_error
  | ErrTxhash error hash

datatype panic = DivisionByZero | NilDereference

text \<open>A Go call either returns, returns a non-nil error, or panics.\<close>

datatype 'a outcome = Ret 'a | Err error | Panic panic

subsection \<open>Rendering\<close>

definition hexdigits :: string where
  "hexdigits = ''0123456789abcdef''"

definition hex_byte :: "byte \<Rightarrow> string" where
  "hex_byte b = [hexdigits ! (unat b div 16), hexdigits ! (unat b mod 16)]"

text \<open>\<open>hex.Encode\<close> and \<open>common.Bytes2Hex\<close>: two lower-case digits per byte.\<close>

definition hex_Encode :: "byte list \<Rightarrow> string" where
  "hex_Encode bs = concat (map hex_byte bs)"

text \<open>\<open>Hash.Bytes()\<close>: the 32 bytes, most significant first.\<close>

definition hash_Bytes :: "hash \<Rightarrow> byte list" where
  "hash_Bytes h = map (\<lambda>i. ucast (drop_bit (8 * (31 - i)) h)) [0..<32]"

text \<open>\<open>Hash.String()\<close>: the hex encoding with the prefix \<open>0x\<close>.\<close>

definition Hash_String :: "hash \<Rightarrow> string" where
  "Hash_String h = ''0x'' @ hex_Encode (hash_Bytes h)"

text \<open>The conversion \<open>string(bytes)\<close>.\<close>

definition bytes_string :: "byte list \<Rightarrow> string" where
  "bytes_string bs = map (\<lambda>b. char_of (unat b)) bs"

fun dec_nat :: "nat \<Rightarrow> string" where
  "dec_nat n = (if n < 10 then [char_of (48 + n)] else dec_nat (n div 10) @ [char_of (48 + n mod 10)])"

declare dec_nat.simps [simp del]

text \<open>\<open>(*big.Int).String()\<close>: decimal, with a minus sign for a negative value.\<close>

definition big_String :: "int \<Rightarrow> string" where
  "big_String x = (if x < 0 then CHR ''-'' # dec_nat (nat (- x)) else dec_nat (nat x))"

text \<open>
  \<open>(*big.Int).Div\<close> is Euclidean division (the remainder is never negative) and panics
  on a zero divisor; \<open>None\<close> is that panic.
\<close>

definition big_Div :: "int \<Rightarrow> int \<Rightarrow> int option" where
  "big_Div x y =
     (if y = 0 then None
      else if 0 < y then Some (x div y)
      else Some (- (x div (- y))))"

fun error_Error :: "error \<Rightarrow> string" where
  "error_Error (ErrorsNew s) = s"
| "error_Error (Collaborator s) = s"
| "error_Error (ContextErr Canceled) = ''context canceled''"
| "error_Error (ContextErr DeadlineExceeded) = ''context deadline exceeded''"
| "error_Error (ErrTxhash e h) = ''err: '' @ error_Error e @ ''; txhash '' @ Hash_String h"

section \<open>Data model\<close>

datatype block_ref = ByNumber int64 | ByHash hash

record call_bundle_args =
  args_Txs :: "byte list list"
  args_BlockNumber :: int64
  args_StateBlockNumberOrHash :: block_ref
  args_Coinbase :: "string option"
  args_Timestamp :: "uint64 option"
  args_Timeout :: "int64 option"
  args_GasLimit :: "uint64 option"
  args_Difficulty :: "int option"
  args_BaseFee :: "int option"

record transaction =
  tx_Hash :: hash
  tx_To :: "address option"
  tx_Gas :: uint64
  tx_Data :: "byte list"

text \<open>\<open>evmcore.EvmHeader\<close>; \<open>hdr_GasUsed\<close> is the running total the engine updates.\<close>

record evm_header =
  hdr_Hash :: hash
  hdr_ParentHash :: hash
  hdr_Number :: int
  hdr_GasLimit :: uint64
  hdr_GasUsed :: uint64
  hdr_Time :: uint64
  hdr_Coinbase :: address
  hdr_BaseFee :: "int option"

text \<open>The fields of \<open>types.Header\<close> that the simulator reads after \<open>EthHeader()\<close>.\<close>

record eth_header =
  eth_Number :: int
  eth_Time :: uint64
  eth_Coinbase :: address
  eth_BaseFee :: "int option"

record log_entry =
  log_Address :: address
  log_Topics :: "hash list"
  log_Data :: "byte list"

record receipt =
  rcpt_GasUsed :: uint64
  rcpt_Logs :: "log_entry list"

record execution_result =
  exec_Err :: "error option"
  exec_ReturnData :: "byte list"

record message =
  msg_From :: address
  msg_GasPrice :: int

text \<open>What \<open>types.MakeSigner(config, number, time)\<close> is built from.\<close>

type_synonym signer = "int \<times> uint64"

text \<open>The values stored in the \<open>map[string]interface{}\<close> of one transaction and of the bundle.\<close>

datatype jvalue = JString string | JUint64 uint64

datatype rvalue =
    RString string
  | RUint64 uint64
  | RInt64 int64
  | RResults "(string \<rightharpoonup> jvalue) list"

subsection \<open>Collaborators\<close>

text \<open>
  Everything the simulator calls and does not define: the transaction decoder, the state
  access, the chain configuration, the fee-market formula, the header conversion, the
  state view's operations, sender recovery, message construction, the virtual machine's
  set-up, the execution engine, the transaction's effective tip, Keccak-256, and (for the
  log previewer) the chain head and the transaction lookup. The state view has type
  \<open>'st\<close>. The engine receives the gas pool, the state view and the header and hands back
  the pool, the view and the header's gas used as it left them. A balance read from the
  state view is a value: the \<open>*uint256.Int\<close> that \<open>GetBalance\<close> returns is taken not
  to change when the view changes later.
\<close>

record 'st backend =
  UnmarshalBinary :: "byte list \<Rightarrow> error + transaction"
  StateAndHeaderByNumberOrHash :: "block_ref \<Rightarrow> error + ('st option \<times> evm_header)"
  IsLondon :: "int \<Rightarrow> bool"
  CalcBaseFee :: "eth_header \<Rightarrow> int"
  EthHeader :: "evm_header \<Rightarrow> eth_header"
  HexToAddress :: "string \<Rightarrow> address"
  Address_String :: "address \<Rightarrow> string"
  GetBalance :: "'st \<Rightarrow> address \<Rightarrow> uint256"
  SetTxContext :: "hash \<Rightarrow> nat \<Rightarrow> 'st \<Rightarrow> 'st"
  Sender :: "signer \<Rightarrow> transaction \<Rightarrow> error + address"
  TransactionToMessage :: "transaction \<Rightarrow> signer \<Rightarrow> int option \<Rightarrow> error + message"
  backend_GetEVM :: "message \<Rightarrow> 'st \<Rightarrow> evm_header \<Rightarrow> error option"
  ApplyTransactionWithResult ::
    "message \<Rightarrow> uint64 \<Rightarrow> 'st \<Rightarrow> evm_header \<Rightarrow> transaction \<Rightarrow>
       (error + receipt \<times> execution_result) \<times> uint64 \<times> 'st \<times> uint64"
  EffectiveGasTip :: "transaction \<Rightarrow> int option \<Rightarrow> int \<times> error option"
  Keccak256 :: "byte list \<Rightarrow> byte list"
  CurrentBlock :: evm_header
  GetTransaction :: "hash \<Rightarrow> error + transaction option"

text \<open>
  The calls made to collaborators, in the order they are made. The trace is what
  "before any execution" and "no state access" are stated on.
\<close>

datatype event =
    EvUnmarshal "byte list"
  | EvStateAndHeader block_ref
  | EvCtxErr nat
  | EvGetEVM hash
  | EvApply hash uint64
  | EvGetTransaction hash

text \<open>
  The accessors of \<open>core.ExecutionResult\<close>: \<open>Revert()\<close> is the return data of a reverted
  execution and nil otherwise, \<open>Return()\<close> the return data of a successful one.
\<close>

definition ErrExecutionReverted :: error where
  "ErrExecutionReverted = Collaborator ''execution reverted''"

definition Revert :: "execution_result \<Rightarrow> byte list" where
  "Revert result = (if exec_Err result \<noteq> Some ErrExecutionReverted then [] else exec_ReturnData result)"

definition Return :: "execution_result \<Rightarrow> byte list" where
  "Return result = (if exec_Err result \<noteq> None then [] else exec_ReturnData result)"

section \<open>The bundle simulator\<close>

text \<open>\<open>GetEVM\<close>: the message of a transaction, then the virtual machine for it.\<close>

definition GetEVM ::
  "'st backend \<Rightarrow> 'st \<Rightarrow> evm_header \<Rightarrow> transaction \<Rightarrow> event list \<Rightarrow> (error + message) \<times> event list" where
  "GetEVM b statedb header tx tr =
     (case TransactionToMessage b tx (hdr_Number header, hdr_Time header) (hdr_BaseFee header) of
        Inl err \<Rightarrow> (Inl err, tr)
      | Inr msg \<Rightarrow>
          (case backend_GetEVM b msg statedb header of
             Some err \<Rightarrow> (Inl err, tr @ [EvGetEVM (tx_Hash tx)])
           | None \<Rightarrow> (Inr msg, tr @ [EvGetEVM (tx_Hash tx)])))"

text \<open>\<open>processTransactionResult\<close>: the result entry of one applied transaction.\<close>

definition processTransactionResult ::
  "'st backend \<Rightarrow> transaction \<Rightarrow> receipt \<Rightarrow> execution_result \<Rightarrow> signer \<Rightarrow> eth_header \<Rightarrow>
     uint256 \<Rightarrow> 'st \<Rightarrow> (string \<rightharpoonup> jvalue) outcome" where
  "processTransactionResult b tx receipt result signer header coinbaseBalanceBeforeTx state =
     (let txHash = Hash_String (tx_Hash tx);
          from_addr = (case Sender b signer tx of Inl _ \<Rightarrow> 0 | Inr a \<Rightarrow> a);
          to_str = (case tx_To tx of None \<Rightarrow> ''0x'' | Some a \<Rightarrow> Address_String b a);
          jsonResult = [''txHash'' \<mapsto> JString txHash,
                        ''gasUsed'' \<mapsto> JUint64 (rcpt_GasUsed receipt),
                        ''fromAddress'' \<mapsto> JString (Address_String b from_addr),
                        ''toAddress'' \<mapsto> JString to_str];
          jsonResult =
            (case exec_Err result of
               Some err \<Rightarrow>
                 (let j = jsonResult(''error'' \<mapsto> JString (error_Error err))
                  in if length (Revert result) > 0
                     then j(''revert'' \<mapsto> JString (bytes_string (Revert result)))
                     else j)
             | None \<Rightarrow> jsonResult(''value'' \<mapsto> JString (''0x'' @ hex_Encode (Return result))));
          coinbaseDiffTx = uint (GetBalance b state (eth_Coinbase header)) - uint coinbaseBalanceBeforeTx;
          gasPrice = fst (EffectiveGasTip b tx (eth_BaseFee header));
          gasFeesTx = sint (rcpt_GasUsed receipt) * gasPrice;
          jsonResult = jsonResult(''coinbaseDiff'' \<mapsto> JString (big_String coinbaseDiffTx),
                                  ''gasFees'' \<mapsto> JString (big_String gasFeesTx),
                                  ''ethSentToCoinbase'' \<mapsto> JString (big_String (coinbaseDiffTx - gasFeesTx)))
      in case big_Div coinbaseDiffTx (sint (rcpt_GasUsed receipt)) of
           None \<Rightarrow> Panic DivisionByZero
         | Some q \<Rightarrow> Ret (jsonResult(''gasPrice'' \<mapsto> JString (big_String q))))"

text \<open>
  \<open>prepareFinalResult\<close>: the bundle's result. \<open>bundleHash\<close> is the digest under
  construction, that is the bytes written to it so far; \<open>Sum\<close> finalises it.
\<close>

definition prepareFinalResult ::
  "'st backend \<Rightarrow> (string \<rightharpoonup> jvalue) list \<Rightarrow> 'st \<Rightarrow> uint256 \<Rightarrow> address \<Rightarrow> int \<Rightarrow> uint64 \<Rightarrow>
     eth_header \<Rightarrow> byte list \<Rightarrow> (string \<rightharpoonup> rvalue) outcome" where
  "prepareFinalResult b results state coinbaseBalanceBefore coinbase gasFees totalGasUsed parent bundleHash =
     (let ret = [''results'' \<mapsto> RResults results,
                 ''stateBlockNumber'' \<mapsto> RInt64 (word_of_int (eth_Number parent)),
                 ''totalGasUsed'' \<mapsto> RUint64 totalGasUsed];
          coinbaseDiff = uint (GetBalance b state coinbase) - uint coinbaseBalanceBefore;
          ret = ret(''coinbaseDiff'' \<mapsto> RString (big_String coinbaseDiff),
                    ''gasFees'' \<mapsto> RString (big_String gasFees),
                    ''ethSentToCoinbase'' \<mapsto> RString (big_String (coinbaseDiff - gasFees)))
      in case big_Div coinbaseDiff (sint totalGasUsed) of
           None \<Rightarrow> Panic DivisionByZero
         | Some q \<Rightarrow>
             Ret (ret(''bundleGasPrice'' \<mapsto> RString (big_String q),
                      ''bundleHash'' \<mapsto> RString (''0x'' @ hex_Encode (Keccak256 b bundleHash)))))"

text \<open>The decoding loop of \<open>CallBundle\<close>: it stops at the first encoding that fails.\<close>

fun decode_txs ::
  "'st backend \<Rightarrow> byte list list \<Rightarrow> transaction list \<Rightarrow> event list \<Rightarrow>
     (error + transaction list) \<times> event list" where
  "decode_txs b [] txs tr = (Inr txs, tr)"
| "decode_txs b (encodedTx # rest) txs tr =
     (case UnmarshalBinary b encodedTx of
        Inl err \<Rightarrow> (Inl err, tr @ [EvUnmarshal encodedTx])
      | Inr tx \<Rightarrow> decode_txs b rest (txs @ [tx]) (tr @ [EvUnmarshal encodedTx]))"

text \<open>The synthetic header \<open>CallBundle\<close> builds from the parent and the overrides.\<close>

definition bundle_header :: "'st backend \<Rightarrow> call_bundle_args \<Rightarrow> evm_header \<Rightarrow> evm_header" where
  "bundle_header b args parent =
     (let blockNumber = sint (args_BlockNumber args);
          timestamp = (case args_Timestamp args of None \<Rightarrow> hdr_Time parent + 1 | Some t \<Rightarrow> t);
          coinbase = (case args_Coinbase args of None \<Rightarrow> hdr_Coinbase parent | Some s \<Rightarrow> HexToAddress b s);
          gasLimit = (case args_GasLimit args of None \<Rightarrow> hdr_GasLimit parent | Some g \<Rightarrow> g);
          baseFee = (case args_BaseFee args of
                       Some f \<Rightarrow> Some f
                     | None \<Rightarrow>
                         if IsLondon b (sint (args_BlockNumber args))
                         then Some (CalcBaseFee b (EthHeader b parent))
                         else None)
      in \<lparr>hdr_Hash = 0, hdr_ParentHash = hdr_Hash parent, hdr_Number = blockNumber,
          hdr_GasLimit = gasLimit, hdr_GasUsed = 0, hdr_Time = timestamp,
          hdr_Coinbase = coinbase, hdr_BaseFee = baseFee\<rparr>)"

text \<open>What the execution loop of \<open>CallBundle\<close> carries from one transaction to the next.\<close>

record 'st loop_state =
  ls_state :: 'st
  ls_gp :: uint64
  ls_header :: evm_header
  ls_results :: "(string \<rightharpoonup> jvalue) list"
  ls_totalGasUsed :: uint64
  ls_gasFees :: int
  ls_bundleHash :: "byte list"

text \<open>The body of the loop, after the cancellation check, for the transaction at index \<open>i\<close>.\<close>

definition bundle_step ::
  "'st backend \<Rightarrow> address \<Rightarrow> signer \<Rightarrow> nat \<Rightarrow> transaction \<Rightarrow> 'st loop_state \<Rightarrow> event list \<Rightarrow>
     'st loop_state outcome \<times> event list" where
  "bundle_step b coinbase signer i tx ls tr =
     (let coinbaseBalanceBeforeTx = GetBalance b (ls_state ls) coinbase;
          state1 = SetTxContext b (tx_Hash tx) i (ls_state ls)
      in case GetEVM b state1 (ls_header ls) tx tr of
           (Inl err, tr1) \<Rightarrow> (Err err, tr1)
         | (Inr msg, tr1) \<Rightarrow>
             (let tr2 = tr1 @ [EvApply (tx_Hash tx) (ls_gp ls)]
              in case ApplyTransactionWithResult b msg (ls_gp ls) state1 (ls_header ls) tx of
                   (Inl err, _) \<Rightarrow> (Err (ErrTxhash err (tx_Hash tx)), tr2)
                 | (Inr (receipt, result), gp', state2, gasUsed') \<Rightarrow>
                     (let header' = (ls_header ls)\<lparr>hdr_GasUsed := gasUsed'\<rparr>
                      in case processTransactionResult b tx receipt result signer
                                (EthHeader b header') coinbaseBalanceBeforeTx state2 of
                           Panic p \<Rightarrow> (Panic p, tr2)
                         | Err err \<Rightarrow> (Err err, tr2)
                         | Ret jsonResult \<Rightarrow>
                             (let totalGasUsed = ls_totalGasUsed ls + rcpt_GasUsed receipt
                              in case EffectiveGasTip b tx (hdr_BaseFee header') of
                                   (_, Some err) \<Rightarrow> (Err (ErrTxhash err (tx_Hash tx)), tr2)
                                 | (gasPrice, None) \<Rightarrow>
                                     (let gasFeesTx = sint (rcpt_GasUsed receipt) * gasPrice
                                      in (Ret \<lparr>ls_state = state2, ls_gp = gp', ls_header = header',
                                               ls_results = ls_results ls @ [jsonResult],
                                               ls_totalGasUsed = totalGasUsed,
                                               ls_gasFees = ls_gasFees ls + gasFeesTx,
                                               ls_bundleHash = ls_bundleHash ls @ hash_Bytes (tx_Hash tx)\<rparr>,
                                          tr2))))))"

text \<open>
  The loop: \<open>ctx i\<close> is what \<open>ctx.Err()\<close> answers at the top of iteration \<open>i\<close>.
  The deadline that \<open>CallBundle\<close> derives from \<open>args.Timeout\<close> and the caller's
  cancellation are events in real time; what they amount to is the answers of \<open>ctx\<close>.
\<close>

fun bundle_loop ::
  "'st backend \<Rightarrow> (nat \<Rightarrow> ctx_error option) \<Rightarrow> address \<Rightarrow> signer \<Rightarrow> nat \<Rightarrow> transaction list \<Rightarrow>
     'st loop_state \<Rightarrow> event list \<Rightarrow> 'st loop_state outcome \<times> event list" where
  "bundle_loop b ctx coinbase signer i [] ls tr = (Ret ls, tr)"
| "bundle_loop b ctx coinbase signer i (tx # txs) ls tr =
     (case ctx i of
        Some err \<Rightarrow> (Err (ContextErr err), tr @ [EvCtxErr i])
      | None \<Rightarrow>
          (case bundle_step b coinbase signer i tx ls (tr @ [EvCtxErr i]) of
             (Ret ls', tr') \<Rightarrow> bundle_loop b ctx coinbase signer (Suc i) txs ls' tr'
           | (Err err, tr') \<Rightarrow> (Err err, tr')
           | (Panic p, tr') \<Rightarrow> (Panic p, tr')))"

text \<open>
  The state the loop of \<open>CallBundle\<close> starts from: a gas pool of \<open>math.MaxUint64\<close>,
  no results, no gas used, no fees, an empty digest.
\<close>

definition bundle_init :: "'st \<Rightarrow> evm_header \<Rightarrow> 'st loop_state" where
  "bundle_init st header =
     \<lparr>ls_state = st, ls_gp = - 1, ls_header = header, ls_results = [],
      ls_totalGasUsed = 0, ls_gasFees = 0, ls_bundleHash = []\<rparr>"

text \<open>The signer \<open>CallBundle\<close> makes for its header.\<close>

definition bundle_signer :: "'st backend \<Rightarrow> evm_header \<Rightarrow> signer" where
  "bundle_signer b header = (hdr_Number header, eth_Time (EthHeader b header))"

text \<open>
  The part of \<open>CallBundle\<close> that follows the state access: the header, the snapshot of
  the coinbase's balance, the loop and the final result.
\<close>

definition bundle_execute ::
  "'st backend \<Rightarrow> (nat \<Rightarrow> ctx_error option) \<Rightarrow> call_bundle_args \<Rightarrow> transaction list \<Rightarrow> 'st \<Rightarrow>
     evm_header \<Rightarrow> event list \<Rightarrow> (string \<rightharpoonup> rvalue) option outcome \<times> event list" where
  "bundle_execute b ctx args txs state parent tr0 =
     (let header = bundle_header b args parent;
          coinbase = hdr_Coinbase header;
          coinbaseBalanceBefore = GetBalance b state coinbase;
          signer = bundle_signer b header;
          ls = bundle_init state header
      in case bundle_loop b ctx coinbase signer 0 txs ls tr0 of
           (Ret ls', tr') \<Rightarrow>
             (case prepareFinalResult b (ls_results ls') (ls_state ls')
                     coinbaseBalanceBefore coinbase (ls_gasFees ls')
                     (ls_totalGasUsed ls') (EthHeader b parent) (ls_bundleHash ls') of
                Ret m \<Rightarrow> (Ret (Some m), tr')
              | Err err \<Rightarrow> (Err err, tr')
              | Panic p \<Rightarrow> (Panic p, tr'))
         | (Err err, tr') \<Rightarrow> (Err err, tr')
         | (Panic p, tr') \<Rightarrow> (Panic p, tr'))"

text \<open>
  \<open>CallBundle\<close>. \<open>Ret None\<close> is the return of a nil map with a nil error, which happens
  when the state access answers a nil state without an error.
\<close>

definition CallBundle ::
  "'st backend \<Rightarrow> (nat \<Rightarrow> ctx_error option) \<Rightarrow> call_bundle_args \<Rightarrow>
     (string \<rightharpoonup> rvalue) option outcome \<times> event list" where
  "CallBundle b ctx args =
     (if length (args_Txs args) = 0 then (Err (ErrorsNew ''bundle missing txs''), [])
      else if args_BlockNumber args = 0 then (Err (ErrorsNew ''bundle missing blockNumber''), [])
      else
        case decode_txs b (args_Txs args) [] [] of
          (Inl err, tr) \<Rightarrow> (Err err, tr)
        | (Inr txs, tr) \<Rightarrow>
            (let tr0 = tr @ [EvStateAndHeader (args_StateBlockNumberOrHash args)]
             in case StateAndHeaderByNumberOrHash b (args_StateBlockNumberOrHash args) of
                  Inl err \<Rightarrow> (Err err, tr0)
                | Inr (None, parent) \<Rightarrow> (Ret None, tr0)
                | Inr (Some state, parent) \<Rightarrow> bundle_execute b ctx args txs state parent tr0))"

section \<open>The single-transaction log previewer\<close>

text \<open>The header \<open>simulateTx\<close> builds on top of the current chain head.\<close>

definition simulate_header :: "'st backend \<Rightarrow> evm_header" where
  "simulate_header b =
     (let parent = CurrentBlock b;
          blockNumber = hdr_Number parent + 1;
          timestamp = hdr_Time parent + 1;
          coinbase = hdr_Coinbase parent;
          gasLimit = hdr_GasLimit parent;
          baseFee = (if IsLondon b blockNumber then Some (CalcBaseFee b (EthHeader b parent)) else None)
      in \<lparr>hdr_Hash = 0, hdr_ParentHash = hdr_Hash parent, hdr_Number = blockNumber,
          hdr_GasLimit = gasLimit, hdr_GasUsed = 0, hdr_Time = timestamp,
          hdr_Coinbase = coinbase, hdr_BaseFee = baseFee\<rparr>)"

text \<open>
  \<open>simulateTx\<close>. A nil transaction without an error, and a nil state without an error,
  are dereferenced by the code: Go panics there.
\<close>

definition simulateTx :: "'st backend \<Rightarrow> hash \<Rightarrow> log_entry list outcome \<times> event list" where
  "simulateTx b txHash =
     (let parent = CurrentBlock b;
          tr0 = [EvGetTransaction txHash]
      in case GetTransaction b txHash of
           Inl err \<Rightarrow> (Err err, tr0)
         | Inr None \<Rightarrow> (Panic NilDereference, tr0)
         | Inr (Some tx) \<Rightarrow>
             (let header = simulate_header b;
                  gasPool = tx_Gas tx;
                  ref = ByNumber (word_of_int (hdr_Number parent));
                  tr1 = tr0 @ [EvStateAndHeader ref]
              in case StateAndHeaderByNumberOrHash b ref of
                   Inl err \<Rightarrow> (Err err, tr1)
                 | Inr (None, _) \<Rightarrow> (Panic NilDereference, tr1)
                 | Inr (Some state, _) \<Rightarrow>
                     (let state1 = SetTxContext b (tx_Hash tx) 0 state
                      in case GetEVM b state1 header tx tr1 of
                           (Inl err, tr2) \<Rightarrow> (Err err, tr2)
                         | (Inr msg, tr2) \<Rightarrow>
                             (let tr3 = tr2 @ [EvApply (tx_Hash tx) gasPool]
                              in case ApplyTransactionWithResult b msg gasPool state1 header tx of
                                   (Inl err, _) \<Rightarrow> (Err err, tr3)
                                 | (Inr (receipt, _), _) \<Rightarrow> (Ret (rcpt_Logs receipt), tr3)))))"

section \<open>A small backend to run the simulator on\<close>

text \<open>
  The state view is the coinbase's balance. An encoding is three bytes: the hash, the gas
  limit and the kind of the transaction. Kind 1 reverts inside the virtual machine, kind 2
  has no valid message, kind 3 is refused by the engine, kind 5 pays the coinbase 10 on top
  of the fees; every other kind succeeds. An applied transaction uses its whole gas limit
  and pays the coinbase 2 per gas.
\<close>

definition demo_parent :: evm_header where
  "demo_parent = \<lparr>hdr_Hash = 170, hdr_ParentHash = 153, hdr_Number = 100,
     hdr_GasLimit = 30000000, hdr_GasUsed = 0, hdr_Time = 1000, hdr_Coinbase = 7,
     hdr_BaseFee = None\<rparr>"

definition demo_decode :: "byte list \<Rightarrow> error + transaction" where
  "demo_decode enc =
     (case enc of
        [t, g, k] \<Rightarrow> Inr \<lparr>tx_Hash = ucast t, tx_To = Some 5, tx_Gas = ucast g, tx_Data = [k]\<rparr>
      | _ \<Rightarrow> Inl (Collaborator ''rlp: malformed transaction''))"

definition demo_apply ::
  "message \<Rightarrow> uint64 \<Rightarrow> nat \<Rightarrow> evm_header \<Rightarrow> transaction \<Rightarrow>
     (error + receipt \<times> execution_result) \<times> uint64 \<times> nat \<times> uint64" where
  "demo_apply msg gp st header tx =
     (if tx_Data tx = [3] then (Inl (Collaborator ''nonce too low''), gp, st, hdr_GasUsed header)
      else if gp < tx_Gas tx then (Inl (Collaborator ''gas limit reached''), gp, st, hdr_GasUsed header)
      else
        (Inr (\<lparr>rcpt_GasUsed = tx_Gas tx, rcpt_Logs = []\<rparr>,
              if tx_Data tx = [1]
              then \<lparr>exec_Err = Some ErrExecutionReverted, exec_ReturnData = [8]\<rparr>
              else \<lparr>exec_Err = None, exec_ReturnData = [171]\<rparr>),
         gp - tx_Gas tx,
         st + 2 * unat (tx_Gas tx) + (if tx_Data tx = [5] then 10 else 0),
         hdr_GasUsed header + tx_Gas tx))"

definition demo_backend :: "nat backend" where
  "demo_backend =
     \<lparr>UnmarshalBinary = demo_decode,
      StateAndHeaderByNumberOrHash = (\<lambda>r. Inr (Some 1000, demo_parent)),
      IsLondon = (\<lambda>n. False),
      CalcBaseFee = (\<lambda>h. 0),
      EthHeader = (\<lambda>h. \<lparr>eth_Number = hdr_Number h, eth_Time = hdr_Time h div 1000000000,
                          eth_Coinbase = hdr_Coinbase h, eth_BaseFee = hdr_BaseFee h\<rparr>),
      HexToAddress = (\<lambda>s. if s = ''0x09'' then 9 else 0),
      Address_String = (\<lambda>a. ''0x'' @ big_String (uint a)),
      GetBalance = (\<lambda>st a. if a = 7 then word_of_nat st else 0),
      SetTxContext = (\<lambda>h i st. st),
      Sender = (\<lambda>sg tx. Inr 3),
      TransactionToMessage = (\<lambda>tx sg f.
         if tx_Data tx = [2] then Inl (Collaborator ''invalid sender'')
         else Inr \<lparr>msg_From = 3, msg_GasPrice = 2\<rparr>),
      backend_GetEVM = (\<lambda>m st h. None),
      ApplyTransactionWithResult = demo_apply,
      EffectiveGasTip = (\<lambda>tx f. (2, None)),
      Keccak256 = (\<lambda>bs. drop 30 bs),
      CurrentBlock = demo_parent,
      GetTransaction = (\<lambda>h. if h = 1 then Inr (Some \<lparr>tx_Hash = 1, tx_To = Some 5, tx_Gas = 21000, tx_Data = []\<rparr>)
                              else Inl (Collaborator ''transaction not found''))\<rparr>"

definition demo_args :: "byte list list \<Rightarrow> call_bundle_args" where
  "demo_args encs =
     \<lparr>args_Txs = encs, args_BlockNumber = 101, args_StateBlockNumberOrHash = ByNumber 100,
      args_Coinbase = None, args_Timestamp = None, args_Timeout = None, args_GasLimit = None,
      args_Difficulty = None, args_BaseFee = None\<rparr>"

text \<open>A context that is never cancelled, and one cancelled from poll \<open>k\<close> on.\<close>

definition ctx_live :: "nat \<Rightarrow> ctx_error option" where
  "ctx_live i = None"

definition ctx_cancelled_from :: "nat \<Rightarrow> nat \<Rightarrow> ctx_error option" where
  "ctx_cancelled_from k i = (if k \<le> i then Some Canceled else None)"

subsection \<open>Requests, states and readers used below\<close>

definition demo_args_early :: call_bundle_args where
  "demo_args_early = (demo_args [[1, 10, 0]])\<lparr>args_Timestamp := Some 5\<rparr>"

definition demo_args_negative :: call_bundle_args where
  "demo_args_negative =
     (demo_args [[1, 10, 0]])\<lparr>args_BlockNumber := - 1, args_Coinbase := Some ''zz''\<rparr>"

text \<open>The call handed back a result map (not an error, not a panic, not the nil map).\<close>

definition returns_result :: "'a option outcome \<Rightarrow> bool" where
  "returns_result r = (case r of Ret (Some _) \<Rightarrow> True | _ \<Rightarrow> False)"

definition demo_tx :: transaction where
  "demo_tx = \<lparr>tx_Hash = 1, tx_To = Some 5, tx_Gas = 10, tx_Data = [0]\<rparr>"

definition demo_ls :: "nat loop_state" where
  "demo_ls = bundle_init 1000 (bundle_header demo_backend (demo_args [[1, 10, 0]]) demo_parent)"

text \<open>Reading a result back: the gas used of an entry, the entries and fields of a bundle's result.\<close>

definition entry_gasUsed :: "(string \<rightharpoonup> jvalue) \<Rightarrow> uint64" where
  "entry_gasUsed e = (case e ''gasUsed'' of Some (JUint64 g) \<Rightarrow> g | _ \<Rightarrow> 0)"

definition bundle_results :: "(string \<rightharpoonup> rvalue) option outcome \<Rightarrow> (string \<rightharpoonup> jvalue) list" where
  "bundle_results r =
     (case r of
        Ret (Some m) \<Rightarrow> (case m ''results'' of Some (RResults rs) \<Rightarrow> rs | _ \<Rightarrow> [])
      | _ \<Rightarrow> [])"

definition bundle_field :: "(string \<rightharpoonup> rvalue) option outcome \<Rightarrow> string \<Rightarrow> rvalue option" where
  "bundle_field r k = (case r of Ret (Some m) \<Rightarrow> m k | _ \<Rightarrow> None)"

text \<open>
  The fee of a transaction as the code computes it from an entry's gas used (read as
  \<open>int64\<close>) and the transaction's effective tip.
\<close>

definition tx_fee :: "'st backend \<Rightarrow> int option \<Rightarrow> transaction \<times> (string \<rightharpoonup> jvalue) \<Rightarrow> int" where
  "tx_fee b baseFee p = sint (entry_gasUsed (snd p)) * fst (EffectiveGasTip b (fst p) baseFee)"

text \<open>The header conversion carries the coinbase and the base fee over.\<close>

definition EthHeader_keeps :: "'st backend \<Rightarrow> bool" where
  "EthHeader_keeps b =
     (\<forall>h. eth_Coinbase (EthHeader b h) = hdr_Coinbase h \<and> eth_BaseFee (EthHeader b h) = hdr_BaseFee h)"

text \<open>The bytes fed to the digest for a list of transactions.\<close>

definition hash_stream :: "transaction list \<Rightarrow> byte list" where
  "hash_stream txs = concat (map (\<lambda>tx. hash_Bytes (tx_Hash tx)) txs)"

definition demo_result :: execution_result where
  "demo_result = \<lparr>exec_Err = None, exec_ReturnData = [171]\<rparr>"

definition bundle_string :: "(string \<rightharpoonup> rvalue) option outcome \<Rightarrow> string \<Rightarrow> string option" where
  "bundle_string r k = (case bundle_field r k of Some (RString s) \<Rightarrow> Some s | _ \<Rightarrow> None)"

subsection \<open>All transactions apply\<close>


subsection \<open>Two more backends\<close>



definition demo_backend_nil :: "nat backend" where
  "demo_backend_nil = demo_backend\<lparr>GetTransaction := (\<lambda>h. Inr None)\<rparr>"

definition demo_receipt_big :: receipt where
  "demo_receipt_big = \<lparr>rcpt_GasUsed = 9223372036854775808, rcpt_Logs = []\<rparr>"

text \<open>
  More readers: the entry a call of \<open>processTransactionResult\<close> returned (the empty map
  when it returned none), a string field of an entry, a \<open>uint64\<close> field of a bundle's
  result.
\<close>

definition the_entry :: "(string \<rightharpoonup> jvalue) outcome \<Rightarrow> (string \<rightharpoonup> jvalue)" where
  "the_entry r = (case r of Ret e \<Rightarrow> e | _ \<Rightarrow> Map.empty)"

definition entry_string :: "(string \<rightharpoonup> jvalue) \<Rightarrow> string \<Rightarrow> string option" where
  "entry_string e k = (case e k of Some (JString s) \<Rightarrow> Some s | _ \<Rightarrow> None)"



section \<open>Traces only grow\<close>

lemma decode_txs_trace:
  "\<exists>tr'. snd (decode_txs b encs txs tr) = tr @ tr'"
proof (induction encs arbitrary: txs tr)
  case Nil
  then show ?case by simp
next
  case (Cons enc encs)
  show ?case
  proof (cases "UnmarshalBinary b enc")
    case (Inl e)
    then show ?thesis by simp
  next
    case (Inr tx)
    from Cons.IH [of "txs @ [tx]" "tr @ [EvUnmarshal enc]"]
    obtain tr' where "snd (decode_txs b encs (txs @ [tx]) (tr @ [EvUnmarshal enc])) = (tr @ [EvUnmarshal enc]) @ tr'"
      by blast
    with Inr show ?thesis by simp
  qed
qed

lemma GetEVM_trace: "\<exists>tr'. snd (GetEVM b st h tx tr) = tr @ tr'"
  by (simp add: GetEVM_def split: sum.splits option.splits)

lemma bundle_step_trace: "\<exists>tr'. snd (bundle_step b cb sg i tx ls tr) = tr @ tr'"
proof -
  obtain r tr1 where g: "GetEVM b (SetTxContext b (tx_Hash tx) i (ls_state ls)) (ls_header ls) tx tr = (r, tr1)"
    by (cases "GetEVM b (SetTxContext b (tx_Hash tx) i (ls_state ls)) (ls_header ls) tx tr")
  from GetEVM_trace [of b "SetTxContext b (tx_Hash tx) i (ls_state ls)" "ls_header ls" tx tr] g
  obtain t where t: "tr1 = tr @ t" by auto
  show ?thesis
    by (simp add: bundle_step_def Let_def g t split: sum.splits prod.splits outcome.splits option.splits)
qed

lemma bundle_loop_trace: "\<exists>tr'. snd (bundle_loop b ctx cb sg i txs ls tr) = tr @ tr'"
proof (induction txs arbitrary: i ls tr)
  case Nil
  then show ?case by simp
next
  case (Cons tx txs)
  show ?case
  proof (cases "ctx i")
    case (Some e)
    then show ?thesis by simp
  next
    case None
    obtain r tr1 where s: "bundle_step b cb sg i tx ls (tr @ [EvCtxErr i]) = (r, tr1)"
      by (cases "bundle_step b cb sg i tx ls (tr @ [EvCtxErr i])")
    from bundle_step_trace [of b cb sg i tx ls "tr @ [EvCtxErr i]"] s
    obtain t where t: "tr1 = tr @ [EvCtxErr i] @ t" by auto
    show ?thesis
    proof (cases r)
      case (Ret ls')
      from Cons.IH [of "Suc i" ls' tr1] obtain t' where
        "snd (bundle_loop b ctx cb sg (Suc i) txs ls' tr1) = tr1 @ t'" by blast
      with None s Ret t show ?thesis by simp
    next
      case (Err e)
      with None s t show ?thesis by simp
    next
      case (Panic p)
      with None s t show ?thesis by simp
    qed
  qed
qed

lemma bundle_execute_trace:
  "\<exists>tr'. snd (bundle_execute b ctx args txs st parent tr) = tr @ tr'"
proof -
  let ?L = "bundle_loop b ctx (hdr_Coinbase (bundle_header b args parent))
              (bundle_signer b (bundle_header b args parent)) 0 txs
              (bundle_init st (bundle_header b args parent)) tr"
  obtain q tr2 where l: "?L = (q, tr2)" by (cases ?L)
  from bundle_loop_trace [of b ctx _ _ 0 txs _ tr] l
  obtain t2 where t2: "tr2 = tr @ t2" by (metis snd_conv)
  from l t2 show ?thesis
    by (simp add: bundle_execute_def Let_def split: outcome.splits)
qed

section \<open>Request validation\<close>

lemma CallBundle_trace_hd:
  assumes "args_Txs args \<noteq> []" and "args_BlockNumber args \<noteq> 0"
  shows "\<exists>tr. snd (CallBundle b ctx args) = EvUnmarshal (hd (args_Txs args)) # tr"
proof -
  obtain enc encs where e: "args_Txs args = enc # encs"
    using assms(1) by (cases "args_Txs args") auto
  show ?thesis
  proof (cases "UnmarshalBinary b enc")
    case (Inl err)
    with e assms show ?thesis by (simp add: CallBundle_def)
  next
    case (Inr tx)
    obtain r tr1 where d: "decode_txs b encs [tx] [EvUnmarshal enc] = (r, tr1)"
      by (cases "decode_txs b encs [tx] [EvUnmarshal enc]")
    from decode_txs_trace [of b encs "[tx]" "[EvUnmarshal enc]"] d
    obtain t where t: "tr1 = EvUnmarshal enc # t" by auto
    show ?thesis
    proof (cases r)
      case (Inl err)
      with e assms Inr d t show ?thesis by (simp add: CallBundle_def)
    next
      case r: (Inr txs)
      show ?thesis
      proof (cases "StateAndHeaderByNumberOrHash b (args_StateBlockNumberOrHash args)")
        case (Inl err)
        with e assms Inr d t r show ?thesis by (simp add: CallBundle_def)
      next
        case s: (Inr sp)
        obtain so parent where sp: "sp = (so, parent)" by (cases sp)
        show ?thesis
        proof (cases so)
          case None
          with e assms Inr d t r s sp show ?thesis by (simp add: CallBundle_def)
        next
          case (Some st)
          let ?tr0 = "EvUnmarshal enc # t @ [EvStateAndHeader (args_StateBlockNumberOrHash args)]"
          from bundle_execute_trace [of b ctx args txs st parent ?tr0]
          obtain t2 where "snd (bundle_execute b ctx args txs st parent ?tr0) = ?tr0 @ t2"
            by blast
          with e assms Inr d t r s sp Some show ?thesis
            by (simp add: CallBundle_def)
        qed
      qed
    qed
  qed
qed

text \<open>
  C2 (as amended). An empty transaction list is rejected with the error
  "bundle missing txs" and a target block number equal to 0 with the error
  "bundle missing blockNumber", in both cases before any collaborator is called (the
  trace is empty: nothing is decoded, no state is read, nothing is executed). Every other
  request passes validation, whatever the sign of its block number and whatever its
  coinbase override: the call goes on to decode its first encoding.
\<close>

theorem CallBundle_validation:
  "(args_Txs args = [] \<longrightarrow>
      CallBundle b ctx args = (Err (ErrorsNew ''bundle missing txs''), [])) \<and>
   (args_Txs args \<noteq> [] \<and> args_BlockNumber args = 0 \<longrightarrow>
      CallBundle b ctx args = (Err (ErrorsNew ''bundle missing blockNumber''), [])) \<and>
   (args_Txs args \<noteq> [] \<and> args_BlockNumber args \<noteq> 0 \<longrightarrow>
      (\<exists>tr. snd (CallBundle b ctx args) = EvUnmarshal (hd (args_Txs args)) # tr))"
  using CallBundle_trace_hd [of args b ctx] by (simp add: CallBundle_def)

lemma demo_negative_run:
  "sint (args_BlockNumber demo_args_negative) < 0 \<and>
   returns_result (fst (CallBundle demo_backend ctx_live demo_args_negative)) \<and>
   snd (CallBundle demo_backend ctx_live demo_args_negative) =
     [EvUnmarshal [1, 10, 0], EvStateAndHeader (ByNumber 100), EvCtxErr 0, EvGetEVM 1, EvApply 1 (- 1)]"
  by code_simp

theorem CallBundle_validation_witness:
  "CallBundle demo_backend ctx_live (demo_args []) = (Err (ErrorsNew ''bundle missing txs''), []) \<and>
   CallBundle demo_backend ctx_live ((demo_args [[1, 10, 0]])\<lparr>args_BlockNumber := 0\<rparr>) =
     (Err (ErrorsNew ''bundle missing blockNumber''), []) \<and>
   args_Txs demo_args_negative \<noteq> [] \<and> args_BlockNumber demo_args_negative \<noteq> 0 \<and>
   hd (snd (CallBundle demo_backend ctx_live demo_args_negative)) = EvUnmarshal [1, 10, 0]"
proof -
  have 1: "args_Txs (demo_args []) = []"
    by (simp add: demo_args_def)
  have 2: "args_Txs ((demo_args [[1, 10, 0]])\<lparr>args_BlockNumber := 0\<rparr>) \<noteq> [] \<and>
           args_BlockNumber ((demo_args [[1, 10, 0]])\<lparr>args_BlockNumber := 0\<rparr>) = 0"
    by (simp add: demo_args_def)
  have 3: "args_Txs demo_args_negative \<noteq> [] \<and> args_BlockNumber demo_args_negative \<noteq> 0 \<and>
           hd (args_Txs demo_args_negative) = [1, 10, 0]"
    by (simp add: demo_args_negative_def demo_args_def)
  from 3 CallBundle_validation [of demo_args_negative demo_backend ctx_live]
  obtain tr where "snd (CallBundle demo_backend ctx_live demo_args_negative) = EvUnmarshal [1, 10, 0] # tr"
    by auto
  then have "hd (snd (CallBundle demo_backend ctx_live demo_args_negative)) = EvUnmarshal [1, 10, 0]"
    by simp
  with 1 2 3 CallBundle_validation [of "demo_args []" demo_backend ctx_live]
    CallBundle_validation [of "(demo_args [[1, 10, 0]])\<lparr>args_BlockNumber := 0\<rparr>" demo_backend ctx_live]
  show ?thesis by simp
qed

text \<open>
  The claim as stated fails: a request whose target block number is \<open>-1\<close> and whose
  coinbase override is the string \<open>zz\<close> is not rejected. The call returns a result and
  its transaction is executed.
\<close>

theorem CallBundle_validation_counterexample:
  "sint (args_BlockNumber demo_args_negative) < 0 \<and>
   args_Coinbase demo_args_negative = Some ''zz'' \<and>
   returns_result (fst (CallBundle demo_backend ctx_live demo_args_negative)) \<and>
   EvApply 1 (- 1) \<in> set (snd (CallBundle demo_backend ctx_live demo_args_negative))"
proof -
  have "args_Coinbase demo_args_negative = Some ''zz''"
    by (simp add: demo_args_negative_def)
  with demo_negative_run show ?thesis by simp
qed

section \<open>The synthetic header\<close>

lemma word64_less_succ:
  fixes w :: uint64
  assumes "w \<noteq> - 1"
  shows "w < w + 1"
  by (metis assms inc_less_eq_triv_imp linorder_less_linear word_le_less_eq)

text \<open>
  C5 (as amended). The header's parent hash is the parent's own hash, its number the
  target number, its timestamp the override when there is one (whatever its value) and
  the parent's timestamp plus one otherwise, which is later than the parent's unless the
  parent's timestamp is the largest \<open>uint64\<close>; coinbase and gas limit are the overrides
  when supplied and the parent's values otherwise; the base fee is the override when
  supplied, else the fee-market formula over the parent's header when the rule is active
  at the target number, else absent.
\<close>

theorem bundle_header_fields:
  "hdr_ParentHash (bundle_header b args parent) = hdr_Hash parent \<and>
   hdr_Number (bundle_header b args parent) = sint (args_BlockNumber args) \<and>
   hdr_Time (bundle_header b args parent) =
     (case args_Timestamp args of Some t \<Rightarrow> t | None \<Rightarrow> hdr_Time parent + 1) \<and>
   (args_Timestamp args = None \<and> hdr_Time parent \<noteq> - 1 \<longrightarrow>
      hdr_Time parent < hdr_Time (bundle_header b args parent)) \<and>
   hdr_Coinbase (bundle_header b args parent) =
     (case args_Coinbase args of Some s \<Rightarrow> HexToAddress b s | None \<Rightarrow> hdr_Coinbase parent) \<and>
   hdr_GasLimit (bundle_header b args parent) =
     (case args_GasLimit args of Some g \<Rightarrow> g | None \<Rightarrow> hdr_GasLimit parent) \<and>
   hdr_BaseFee (bundle_header b args parent) =
     (case args_BaseFee args of
        Some f \<Rightarrow> Some f
      | None \<Rightarrow>
          if IsLondon b (sint (args_BlockNumber args))
          then Some (CalcBaseFee b (EthHeader b parent)) else None)"
  using word64_less_succ [of "hdr_Time parent"]
  by (simp add: bundle_header_def Let_def split: option.splits)

theorem bundle_header_fields_witness:
  "args_Timestamp (demo_args [[1, 10, 0]]) = None \<and> hdr_Time demo_parent \<noteq> - 1 \<and>
   hdr_Time demo_parent < hdr_Time (bundle_header demo_backend (demo_args [[1, 10, 0]]) demo_parent) \<and>
   hdr_Time (bundle_header demo_backend (demo_args [[1, 10, 0]]) demo_parent) = 1001"
  using bundle_header_fields [of demo_backend "demo_args [[1, 10, 0]]" demo_parent]
  by (simp add: demo_args_def demo_parent_def)

text \<open>
  The claim as stated fails: with the timestamp override 5 and a parent at time 1000,
  the synthetic header is earlier than its parent.
\<close>

theorem bundle_header_time_counterexample:
  "args_Timestamp demo_args_early = Some 5 \<and>
   hdr_Time (bundle_header demo_backend demo_args_early demo_parent) < hdr_Time demo_parent"
  by (simp add: bundle_header_def demo_args_early_def demo_args_def demo_parent_def)

section \<open>Decoding comes first\<close>

lemma decode_txs_ok:
  assumes "map (UnmarshalBinary b) encs = map Inr new"
  shows "decode_txs b encs txs tr = (Inr (txs @ new), tr @ map EvUnmarshal encs)"
  using assms
proof (induction encs arbitrary: new txs tr)
  case Nil
  then show ?case by simp
next
  case (Cons enc encs)
  then obtain tx rest where n: "new = tx # rest" "UnmarshalBinary b enc = Inr tx"
    "map (UnmarshalBinary b) encs = map Inr rest"
    by (cases new) auto
  from Cons.IH [OF n(3), of "txs @ [tx]" "tr @ [EvUnmarshal enc]"] n
  show ?case by simp
qed

lemma decode_txs_Inr:
  assumes "decode_txs b encs txs tr = (Inr txs', tr')"
  shows "\<exists>new. txs' = txs @ new \<and> map (UnmarshalBinary b) encs = map Inr new \<and>
           tr' = tr @ map EvUnmarshal encs"
  using assms
proof (induction encs arbitrary: txs tr)
  case Nil
  then show ?case by simp
next
  case (Cons enc encs)
  show ?case
  proof (cases "UnmarshalBinary b enc")
    case (Inl e)
    with Cons.prems show ?thesis by simp
  next
    case (Inr tx)
    with Cons.prems have "decode_txs b encs (txs @ [tx]) (tr @ [EvUnmarshal enc]) = (Inr txs', tr')"
      by simp
    from Cons.IH [OF this] obtain new where
      "txs' = (txs @ [tx]) @ new" "map (UnmarshalBinary b) encs = map Inr new"
      "tr' = (tr @ [EvUnmarshal enc]) @ map EvUnmarshal encs"
      by blast
    with Inr have "txs' = txs @ (tx # new) \<and> map (UnmarshalBinary b) (enc # encs) = map Inr (tx # new) \<and>
           tr' = tr @ map EvUnmarshal (enc # encs)"
      by simp
    then show ?thesis by blast
  qed
qed







lemma CallBundle_decoded:
  assumes "args_Txs args \<noteq> []" and "args_BlockNumber args \<noteq> 0"
    and "map (UnmarshalBinary b) (args_Txs args) = map Inr txs"
  shows "CallBundle b ctx args =
     (let tr0 = map EvUnmarshal (args_Txs args) @ [EvStateAndHeader (args_StateBlockNumberOrHash args)]
      in case StateAndHeaderByNumberOrHash b (args_StateBlockNumberOrHash args) of
           Inl err \<Rightarrow> (Err err, tr0)
         | Inr (None, parent) \<Rightarrow> (Ret None, tr0)
         | Inr (Some state, parent) \<Rightarrow> bundle_execute b ctx args txs state parent tr0)"
  using assms decode_txs_ok [OF assms(3), of "[]" "[]"]
  by (simp add: CallBundle_def)



section \<open>Cancellation\<close>

lemma bundle_loop_Ret_ctx:
  assumes "bundle_loop b ctx cb sg i txs ls tr = (Ret ls', tr')" and "j < length txs"
  shows "ctx (i + j) = None"
  using assms
proof (induction txs arbitrary: i ls tr j)
  case Nil
  then show ?case by simp
next
  case (Cons tx txs)
  from Cons.prems(1) have c: "ctx i = None"
    by (cases "ctx i") auto
  obtain q tr1 where s: "bundle_step b cb sg i tx ls (tr @ [EvCtxErr i]) = (q, tr1)"
    by (cases "bundle_step b cb sg i tx ls (tr @ [EvCtxErr i])")
  with Cons.prems(1) c obtain ls1 where q: "q = Ret ls1"
    and l: "bundle_loop b ctx cb sg (Suc i) txs ls1 tr1 = (Ret ls', tr')"
    by (cases q) auto
  show ?case
  proof (cases j)
    case 0
    with c show ?thesis by simp
  next
    case (Suc j')
    with Cons.prems(2) have "j' < length txs" by simp
    from Cons.IH [OF l this] Suc show ?thesis by simp
  qed
qed

lemma bundle_execute_Ret:
  assumes "returns_result (fst (bundle_execute b ctx args txs st parent tr))"
  shows "\<exists>ls' tr'. bundle_loop b ctx (hdr_Coinbase (bundle_header b args parent))
              (bundle_signer b (bundle_header b args parent)) 0 txs
              (bundle_init st (bundle_header b args parent)) tr = (Ret ls', tr')"
  using assms
  by (auto simp: bundle_execute_def Let_def returns_result_def split: prod.splits outcome.splits)

lemma CallBundle_result_decoded:
  assumes "returns_result (fst (CallBundle b ctx args))"
  shows "\<exists>txs st parent. args_Txs args \<noteq> [] \<and> args_BlockNumber args \<noteq> 0 \<and>
           map (UnmarshalBinary b) (args_Txs args) = map Inr txs \<and>
           StateAndHeaderByNumberOrHash b (args_StateBlockNumberOrHash args) = Inr (Some st, parent) \<and>
           CallBundle b ctx args =
             bundle_execute b ctx args txs st parent
               (map EvUnmarshal (args_Txs args) @ [EvStateAndHeader (args_StateBlockNumberOrHash args)])"
proof -
  from assms have v: "args_Txs args \<noteq> []" "args_BlockNumber args \<noteq> 0"
    by (auto simp: CallBundle_def returns_result_def split: if_splits)
  obtain r tr where d: "decode_txs b (args_Txs args) [] [] = (r, tr)"
    by (cases "decode_txs b (args_Txs args) [] []")
  with assms v obtain txs where r: "r = Inr txs"
    by (cases r) (auto simp: CallBundle_def returns_result_def)
  from decode_txs_Inr [OF d [unfolded r]] have m: "map (UnmarshalBinary b) (args_Txs args) = map Inr txs"
    by auto
  have "\<exists>st parent. StateAndHeaderByNumberOrHash b (args_StateBlockNumberOrHash args) = Inr (Some st, parent)"
  proof (cases "StateAndHeaderByNumberOrHash b (args_StateBlockNumberOrHash args)")
    case (Inl err)
    with assms CallBundle_decoded [OF v m, of ctx] show ?thesis
      by (simp add: returns_result_def)
  next
    case (Inr sp)
    obtain so parent where sp: "sp = (so, parent)" by (cases sp)
    show ?thesis
    proof (cases so)
      case None
      with Inr sp assms CallBundle_decoded [OF v m, of ctx] show ?thesis
        by (simp add: returns_result_def)
    next
      case (Some st)
      with Inr sp show ?thesis by simp
    qed
  qed
  then obtain st parent where
    "StateAndHeaderByNumberOrHash b (args_StateBlockNumberOrHash args) = Inr (Some st, parent)"
    by blast
  with v m CallBundle_decoded [OF v m, of ctx] show ?thesis
    by auto
qed

text \<open>
  C8. The cancellation signal is read at the top of every iteration, before the
  transaction of that iteration is touched: when it has fired there, the loop stops with
  the context's error and nothing of the results gathered so far. A call in which the
  signal fires at the check of any of its transactions returns no result. When it has
  fired at the first check, the call that got as far as the loop returns the context's
  error, having decoded and read the state and applied nothing.
\<close>

theorem cancellation_aborts:
  "(ctx i = Some err \<longrightarrow>
      bundle_loop b ctx cb sg i (tx # txs) ls tr = (Err (ContextErr err), tr @ [EvCtxErr i])) \<and>
   (k < length (args_Txs args) \<and> ctx k = Some err \<longrightarrow>
      \<not> returns_result (fst (CallBundle b ctx args))) \<and>
   (args_Txs args \<noteq> [] \<and> args_BlockNumber args \<noteq> 0 \<and>
    map (UnmarshalBinary b) (args_Txs args) = map Inr dec \<and>
    StateAndHeaderByNumberOrHash b (args_StateBlockNumberOrHash args) = Inr (Some st, parent) \<and>
    ctx 0 = Some err \<longrightarrow>
      CallBundle b ctx args =
        (Err (ContextErr err),
         map EvUnmarshal (args_Txs args) @ [EvStateAndHeader (args_StateBlockNumberOrHash args), EvCtxErr 0]))"
proof (intro conjI impI)
  assume "ctx i = Some err"
  then show "bundle_loop b ctx cb sg i (tx # txs) ls tr = (Err (ContextErr err), tr @ [EvCtxErr i])"
    by simp
next
  assume h: "k < length (args_Txs args) \<and> ctx k = Some err"
  show "\<not> returns_result (fst (CallBundle b ctx args))"
  proof
    assume r: "returns_result (fst (CallBundle b ctx args))"
    from CallBundle_result_decoded [OF r] obtain txs st parent where
      m: "map (UnmarshalBinary b) (args_Txs args) = map Inr txs"
      and c: "CallBundle b ctx args =
             bundle_execute b ctx args txs st parent
               (map EvUnmarshal (args_Txs args) @ [EvStateAndHeader (args_StateBlockNumberOrHash args)])"
      by blast
    from m have len: "length txs = length (args_Txs args)"
      by (metis length_map)
    from r c bundle_execute_Ret obtain ls' tr' where
      "bundle_loop b ctx (hdr_Coinbase (bundle_header b args parent))
              (bundle_signer b (bundle_header b args parent)) 0 txs
              (bundle_init st (bundle_header b args parent))
              (map EvUnmarshal (args_Txs args) @ [EvStateAndHeader (args_StateBlockNumberOrHash args)]) = (Ret ls', tr')"
      by metis
    from bundle_loop_Ret_ctx [OF this, of k] h len show False by simp
  qed
next
  assume h: "args_Txs args \<noteq> [] \<and> args_BlockNumber args \<noteq> 0 \<and>
    map (UnmarshalBinary b) (args_Txs args) = map Inr dec \<and>
    StateAndHeaderByNumberOrHash b (args_StateBlockNumberOrHash args) = Inr (Some st, parent) \<and>
    ctx 0 = Some err"
  then obtain d ds where d: "dec = d # ds"
    by (cases dec) auto
  from h have "CallBundle b ctx args = bundle_execute b ctx args dec st parent
      (map EvUnmarshal (args_Txs args) @ [EvStateAndHeader (args_StateBlockNumberOrHash args)])"
    using CallBundle_decoded [of args b dec ctx] by simp
  with h d show "CallBundle b ctx args =
        (Err (ContextErr err),
         map EvUnmarshal (args_Txs args) @ [EvStateAndHeader (args_StateBlockNumberOrHash args), EvCtxErr 0])"
    by (simp add: bundle_execute_def Let_def)
qed

theorem cancellation_aborts_witness:
  "bundle_loop demo_backend (ctx_cancelled_from 1) 7 (101, 0) 1 [demo_tx] demo_ls [] =
     (Err (ContextErr Canceled), [EvCtxErr 1]) \<and>
   \<not> returns_result (fst (CallBundle demo_backend (ctx_cancelled_from 1) (demo_args [[1, 10, 0], [2, 10, 0]]))) \<and>
   CallBundle demo_backend (ctx_cancelled_from 0) (demo_args [[1, 10, 0], [2, 10, 0]]) =
     (Err (ContextErr Canceled),
      [EvUnmarshal [1, 10, 0], EvUnmarshal [2, 10, 0], EvStateAndHeader (ByNumber 100), EvCtxErr 0])"
proof -
  let ?args = "demo_args [[1, 10, 0], [2, 10, 0]]"
  have c: "ctx_cancelled_from 1 1 = Some Canceled" "ctx_cancelled_from 0 0 = Some Canceled"
    by (simp_all add: ctx_cancelled_from_def)
  have a: "args_Txs ?args = [[1, 10, 0], [2, 10, 0]]" "args_BlockNumber ?args \<noteq> 0"
    "args_StateBlockNumberOrHash ?args = ByNumber 100"
    by (simp_all add: demo_args_def)
  have d: "map (UnmarshalBinary demo_backend) (args_Txs ?args) =
           map Inr [\<lparr>tx_Hash = 1, tx_To = Some 5, tx_Gas = 10, tx_Data = [0]\<rparr>,
                    \<lparr>tx_Hash = 2, tx_To = Some 5, tx_Gas = 10, tx_Data = [0]\<rparr>]"
    by (simp add: demo_args_def demo_backend_def demo_decode_def)
  have s: "StateAndHeaderByNumberOrHash demo_backend (args_StateBlockNumberOrHash ?args) = Inr (Some 1000, demo_parent)"
    by (simp add: demo_backend_def)
  have 1: "bundle_loop demo_backend (ctx_cancelled_from 1) 7 (101, 0) 1 [demo_tx] demo_ls [] =
     (Err (ContextErr Canceled), [] @ [EvCtxErr 1])"
    using cancellation_aborts [of "ctx_cancelled_from 1" 1 Canceled demo_backend 7 "(101, 0)" demo_tx "[]" demo_ls "[]"] c
    by blast
  have 2: "\<not> returns_result (fst (CallBundle demo_backend (ctx_cancelled_from 1) ?args))"
    using cancellation_aborts [of "ctx_cancelled_from 1" _ Canceled demo_backend _ _ _ _ _ _ 1 ?args] c a
    by simp
  have 3: "CallBundle demo_backend (ctx_cancelled_from 0) ?args =
     (Err (ContextErr Canceled),
      map EvUnmarshal (args_Txs ?args) @ [EvStateAndHeader (args_StateBlockNumberOrHash ?args), EvCtxErr 0])"
    using cancellation_aborts [of "ctx_cancelled_from 0" _ Canceled demo_backend _ _ _ _ _ _ _ ?args
        "[\<lparr>tx_Hash = 1, tx_To = Some 5, tx_Gas = 10, tx_Data = [0]\<rparr>,
          \<lparr>tx_Hash = 2, tx_To = Some 5, tx_Gas = 10, tx_Data = [0]\<rparr>]" 1000 demo_parent] c a d s
    by simp
  from 1 2 3 a show ?thesis by simp
qed

section \<open>Division by the gas used\<close>

lemma processTransactionResult_zero_gas:
  assumes "rcpt_GasUsed receipt = 0"
  shows "processTransactionResult b tx receipt result signer header before state = Panic DivisionByZero"
  using assms by (simp add: processTransactionResult_def Let_def big_Div_def)

lemma prepareFinalResult_zero_gas:
  "prepareFinalResult b results state before coinbase gasFees 0 parent bundleHash = Panic DivisionByZero"
  by (simp add: prepareFinalResult_def Let_def big_Div_def)

lemma processTransactionResult_Ret:
  "(\<exists>e. processTransactionResult b tx receipt result signer header before state = Ret e) \<longleftrightarrow>
   rcpt_GasUsed receipt \<noteq> 0"
  by (auto simp: processTransactionResult_def Let_def big_Div_def signed_eq_0_iff split: option.splits if_splits)

lemma demo_zero_gas_run:
  "(case CallBundle demo_backend ctx_live (demo_args [[1, 10, 0], [2, 0, 0]]) of
      (Panic p, tr) \<Rightarrow> p = DivisionByZero \<and> tr = [EvUnmarshal [1, 10, 0], EvUnmarshal [2, 0, 0],
         EvStateAndHeader (ByNumber 100), EvCtxErr 0, EvGetEVM 1, EvApply 1 (- 1),
         EvCtxErr 1, EvGetEVM 2, EvApply 2 (- 11)]
    | _ \<Rightarrow> False)"
  by code_simp

text \<open>
  C1 (the code fails the claim). The second transaction of this bundle is applied and
  its receipt reports gas used 0: the call panics with Go's division by zero inside
  \<open>processTransactionResult\<close>, after the engine has run. The bundle-wide division has
  no guard either: \<open>prepareFinalResult\<close> with a total gas used of 0 panics.
\<close>

theorem gasPrice_division_by_zero:
  "CallBundle demo_backend ctx_live (demo_args [[1, 10, 0], [2, 0, 0]]) =
     (Panic DivisionByZero,
      [EvUnmarshal [1, 10, 0], EvUnmarshal [2, 0, 0], EvStateAndHeader (ByNumber 100),
       EvCtxErr 0, EvGetEVM 1, EvApply 1 (- 1), EvCtxErr 1, EvGetEVM 2, EvApply 2 (- 11)]) \<and>
   prepareFinalResult demo_backend [] 1000 1000 7 0 0 (EthHeader demo_backend demo_parent) [] =
     Panic DivisionByZero"
  using demo_zero_gas_run prepareFinalResult_zero_gas [of demo_backend "[]" 1000 1000 7 0 "EthHeader demo_backend demo_parent" "[]"]
  by (auto split: prod.splits outcome.splits)

section \<open>Failures of one transaction\<close>

lemma bundle_step_message_failure:
  assumes "GetEVM b (SetTxContext b (tx_Hash tx) i (ls_state ls)) (ls_header ls) tx tr = (Inl err, tr1)"
  shows "bundle_step b cb sg i tx ls tr = (Err err, tr1)"
  using assms by (simp add: bundle_step_def Let_def)

lemma bundle_step_engine_failure:
  assumes "GetEVM b (SetTxContext b (tx_Hash tx) i (ls_state ls)) (ls_header ls) tx tr = (Inr msg, tr1)"
    and "fst (ApplyTransactionWithResult b msg (ls_gp ls) (SetTxContext b (tx_Hash tx) i (ls_state ls)) (ls_header ls) tx) = Inl err"
  shows "bundle_step b cb sg i tx ls tr =
           (Err (ErrTxhash err (tx_Hash tx)), tr1 @ [EvApply (tx_Hash tx) (ls_gp ls)])"
proof -
  obtain gp' st' used' where
    "ApplyTransactionWithResult b msg (ls_gp ls) (SetTxContext b (tx_Hash tx) i (ls_state ls)) (ls_header ls) tx =
       (Inl err, gp', st', used')"
    using assms(2)
    by (cases "ApplyTransactionWithResult b msg (ls_gp ls) (SetTxContext b (tx_Hash tx) i (ls_state ls)) (ls_header ls) tx") auto
  with assms(1) show ?thesis
    by (simp add: bundle_step_def Let_def)
qed

lemma processTransactionResult_vm_failure:
  assumes "exec_Err result = Some err"
    and "processTransactionResult b tx receipt result signer header before state = Ret e"
  shows "e ''error'' = Some (JString (error_Error err)) \<and> e ''value'' = None \<and>
         e ''revert'' = (if Revert result = [] then None else Some (JString (bytes_string (Revert result))))"
  using assms
  by (auto simp: processTransactionResult_def Let_def split: option.splits if_splits)

lemma processTransactionResult_vm_success:
  assumes "exec_Err result = None"
    and "processTransactionResult b tx receipt result signer header before state = Ret e"
  shows "e ''error'' = None \<and> e ''revert'' = None \<and>
         e ''value'' = Some (JString (''0x'' @ hex_Encode (exec_ReturnData result)))"
  using assms
  by (auto simp: processTransactionResult_def Let_def Return_def split: option.splits if_splits)

text \<open>
  Whatever the execution result says (success, revert, out of gas), an applied
  transaction with a gas used other than 0 and a valid tip adds its entry and the loop
  goes on to the next transaction.
\<close>

lemma bundle_step_continues:
  assumes "GetEVM b (SetTxContext b (tx_Hash tx) i (ls_state ls)) (ls_header ls) tx tr = (Inr msg, tr1)"
    and "ApplyTransactionWithResult b msg (ls_gp ls) (SetTxContext b (tx_Hash tx) i (ls_state ls)) (ls_header ls) tx =
           (Inr (receipt, result), gp', st', used')"
    and "rcpt_GasUsed receipt \<noteq> 0"
    and "snd (EffectiveGasTip b tx (hdr_BaseFee (ls_header ls))) = None"
  shows "\<exists>ls'. bundle_step b cb sg i tx ls tr = (Ret ls', tr1 @ [EvApply (tx_Hash tx) (ls_gp ls)]) \<and>
           length (ls_results ls') = Suc (length (ls_results ls))"
proof -
  from processTransactionResult_Ret [of b tx receipt result sg
      "EthHeader b ((ls_header ls)\<lparr>hdr_GasUsed := used'\<rparr>)" "GetBalance b (ls_state ls) cb" st'] assms(3)
  obtain e where "processTransactionResult b tx receipt result sg
      (EthHeader b ((ls_header ls)\<lparr>hdr_GasUsed := used'\<rparr>)) (GetBalance b (ls_state ls) cb) st' = Ret e"
    by blast
  moreover obtain gasPrice where "EffectiveGasTip b tx (hdr_BaseFee (ls_header ls)) = (gasPrice, None)"
    using assms(4) by (cases "EffectiveGasTip b tx (hdr_BaseFee (ls_header ls))") auto
  ultimately show ?thesis
    using assms(1,2) by (simp add: bundle_step_def Let_def)
qed

lemma demo_message_failure_run:
  "(case CallBundle demo_backend ctx_live (demo_args [[1, 10, 0], [2, 10, 2]]) of
      (Err e, tr) \<Rightarrow> e = Collaborator ''invalid sender'' \<and> tr = [EvUnmarshal [1, 10, 0], EvUnmarshal [2, 10, 2],
         EvStateAndHeader (ByNumber 100), EvCtxErr 0, EvGetEVM 1, EvApply 1 (- 1), EvCtxErr 1]
    | _ \<Rightarrow> False)"
  by code_simp

lemma demo_engine_failure_run:
  "(case CallBundle demo_backend ctx_live (demo_args [[1, 10, 0], [2, 10, 3]]) of
      (Err e, tr) \<Rightarrow> e = ErrTxhash (Collaborator ''nonce too low'') 2
    | _ \<Rightarrow> False)"
  by code_simp

text \<open>
  C3 (the code fails the claim). The second transaction of the first bundle has no valid
  message: the call aborts with the collaborator's error as it is, without the
  transaction's hash. The second transaction of the other bundle is refused by the
  engine: there the error carries the hash, as the claim says.
\<close>

theorem message_failure_not_annotated:
  "fst (CallBundle demo_backend ctx_live (demo_args [[1, 10, 0], [2, 10, 2]])) =
     Err (Collaborator ''invalid sender'') \<and>
   fst (CallBundle demo_backend ctx_live (demo_args [[1, 10, 0], [2, 10, 3]])) =
     Err (ErrTxhash (Collaborator ''nonce too low'') 2)"
  using demo_message_failure_run demo_engine_failure_run
  by (auto split: prod.splits outcome.splits)

section \<open>One iteration, inverted\<close>

lemma bundle_step_Ret:
  assumes "bundle_step b cb sg i tx ls tr = (Ret ls', tr')"
  shows "\<exists>msg tr1 receipt result gp' st' used' e gasPrice.
     GetEVM b (SetTxContext b (tx_Hash tx) i (ls_state ls)) (ls_header ls) tx tr = (Inr msg, tr1) \<and>
     ApplyTransactionWithResult b msg (ls_gp ls) (SetTxContext b (tx_Hash tx) i (ls_state ls)) (ls_header ls) tx =
       (Inr (receipt, result), gp', st', used') \<and>
     processTransactionResult b tx receipt result sg
       (EthHeader b ((ls_header ls)\<lparr>hdr_GasUsed := used'\<rparr>)) (GetBalance b (ls_state ls) cb) st' = Ret e \<and>
     EffectiveGasTip b tx (hdr_BaseFee (ls_header ls)) = (gasPrice, None) \<and>
     ls' = \<lparr>ls_state = st', ls_gp = gp', ls_header = (ls_header ls)\<lparr>hdr_GasUsed := used'\<rparr>,
            ls_results = ls_results ls @ [e],
            ls_totalGasUsed = ls_totalGasUsed ls + rcpt_GasUsed receipt,
            ls_gasFees = ls_gasFees ls + sint (rcpt_GasUsed receipt) * gasPrice,
            ls_bundleHash = ls_bundleHash ls @ hash_Bytes (tx_Hash tx)\<rparr> \<and>
     tr' = tr1 @ [EvApply (tx_Hash tx) (ls_gp ls)]"
proof -
  let ?st1 = "SetTxContext b (tx_Hash tx) i (ls_state ls)"
  obtain q tr1 where g: "GetEVM b ?st1 (ls_header ls) tx tr = (q, tr1)"
    by (cases "GetEVM b ?st1 (ls_header ls) tx tr")
  with assms obtain msg where q: "q = Inr msg"
    by (cases q) (auto simp: bundle_step_def Let_def)
  obtain ar gp' st' used' where
    a: "ApplyTransactionWithResult b msg (ls_gp ls) ?st1 (ls_header ls) tx = (ar, gp', st', used')"
    by (cases "ApplyTransactionWithResult b msg (ls_gp ls) ?st1 (ls_header ls) tx") auto
  with assms g q obtain receipt result where ar: "ar = Inr (receipt, result)"
    by (cases ar) (auto simp: bundle_step_def Let_def)
  let ?h = "(ls_header ls)\<lparr>hdr_GasUsed := used'\<rparr>"
  let ?P = "processTransactionResult b tx receipt result sg (EthHeader b ?h) (GetBalance b (ls_state ls) cb) st'"
  from assms g q a ar obtain e where p: "?P = Ret e"
    by (cases ?P) (auto simp: bundle_step_def Let_def)
  obtain gasPrice eo where t: "EffectiveGasTip b tx (hdr_BaseFee (ls_header ls)) = (gasPrice, eo)"
    by (cases "EffectiveGasTip b tx (hdr_BaseFee (ls_header ls))")
  with assms g q a ar p have eo: "eo = None"
    by (cases eo) (auto simp: bundle_step_def Let_def)
  from assms g q a ar p t eo show ?thesis
    by (auto simp: bundle_step_def Let_def)
qed

lemma processTransactionResult_fields:
  assumes "processTransactionResult b tx receipt result signer header before state = Ret e"
  shows "e ''txHash'' = Some (JString (Hash_String (tx_Hash tx))) \<and>
         e ''gasUsed'' = Some (JUint64 (rcpt_GasUsed receipt)) \<and>
         e ''coinbaseDiff'' =
           Some (JString (big_String (uint (GetBalance b state (eth_Coinbase header)) - uint before))) \<and>
         e ''gasFees'' =
           Some (JString (big_String (sint (rcpt_GasUsed receipt) * fst (EffectiveGasTip b tx (eth_BaseFee header))))) \<and>
         e ''ethSentToCoinbase'' =
           Some (JString (big_String (uint (GetBalance b state (eth_Coinbase header)) - uint before -
              sint (rcpt_GasUsed receipt) * fst (EffectiveGasTip b tx (eth_BaseFee header)))))"
  using assms
  by (auto simp: processTransactionResult_def Let_def split: option.splits if_splits)

lemma entry_gasUsed_processed:
  assumes "processTransactionResult b tx receipt result signer header before state = Ret e"
  shows "entry_gasUsed e = rcpt_GasUsed receipt"
  using processTransactionResult_fields [OF assms] by (simp add: entry_gasUsed_def)

text \<open>What one iteration adds: one entry, its gas, its hash bytes; the header keeps its coinbase and base fee.\<close>

lemma bundle_step_adds:
  assumes "bundle_step b cb sg i tx ls tr = (Ret ls', tr')"
  shows "\<exists>e. ls_results ls' = ls_results ls @ [e] \<and>
           e ''txHash'' = Some (JString (Hash_String (tx_Hash tx))) \<and>
           e ''gasUsed'' = Some (JUint64 (entry_gasUsed e)) \<and>
           ls_totalGasUsed ls' = ls_totalGasUsed ls + entry_gasUsed e \<and>
           ls_gasFees ls' = ls_gasFees ls +
              sint (entry_gasUsed e) * fst (EffectiveGasTip b tx (hdr_BaseFee (ls_header ls))) \<and>
           ls_bundleHash ls' = ls_bundleHash ls @ hash_Bytes (tx_Hash tx) \<and>
           hdr_BaseFee (ls_header ls') = hdr_BaseFee (ls_header ls) \<and>
           hdr_Coinbase (ls_header ls') = hdr_Coinbase (ls_header ls)"
proof -
  from bundle_step_Ret [OF assms] obtain msg tr1 receipt result gp' st' used' e gasPrice where
    p: "processTransactionResult b tx receipt result sg
       (EthHeader b ((ls_header ls)\<lparr>hdr_GasUsed := used'\<rparr>)) (GetBalance b (ls_state ls) cb) st' = Ret e"
    and t: "EffectiveGasTip b tx (hdr_BaseFee (ls_header ls)) = (gasPrice, None)"
    and l: "ls' = \<lparr>ls_state = st', ls_gp = gp', ls_header = (ls_header ls)\<lparr>hdr_GasUsed := used'\<rparr>,
            ls_results = ls_results ls @ [e],
            ls_totalGasUsed = ls_totalGasUsed ls + rcpt_GasUsed receipt,
            ls_gasFees = ls_gasFees ls + sint (rcpt_GasUsed receipt) * gasPrice,
            ls_bundleHash = ls_bundleHash ls @ hash_Bytes (tx_Hash tx)\<rparr>"
    by blast
  from processTransactionResult_fields [OF p] entry_gasUsed_processed [OF p] t l
  show ?thesis by simp
qed


lemma bundle_loop_adds:
  assumes "bundle_loop b ctx cb sg i txs ls tr = (Ret ls', tr')"
  shows "\<exists>new. ls_results ls' = ls_results ls @ new \<and> length new = length txs \<and>
           map (\<lambda>e. e ''txHash'') new = map (\<lambda>tx. Some (JString (Hash_String (tx_Hash tx)))) txs \<and>
           (\<forall>e\<in>set new. e ''gasUsed'' = Some (JUint64 (entry_gasUsed e))) \<and>
           ls_totalGasUsed ls' = ls_totalGasUsed ls + sum_list (map entry_gasUsed new) \<and>
           ls_gasFees ls' = ls_gasFees ls +
              sum_list (map (tx_fee b (hdr_BaseFee (ls_header ls))) (zip txs new)) \<and>
           ls_bundleHash ls' = ls_bundleHash ls @ concat (map (\<lambda>tx. hash_Bytes (tx_Hash tx)) txs) \<and>
           hdr_BaseFee (ls_header ls') = hdr_BaseFee (ls_header ls) \<and>
           hdr_Coinbase (ls_header ls') = hdr_Coinbase (ls_header ls)"
  using assms
proof (induction txs arbitrary: i ls tr)
  case Nil
  then show ?case by simp
next
  case (Cons tx txs)
  from Cons.prems have c: "ctx i = None"
    by (cases "ctx i") auto
  obtain q tr1 where s: "bundle_step b cb sg i tx ls (tr @ [EvCtxErr i]) = (q, tr1)"
    by (cases "bundle_step b cb sg i tx ls (tr @ [EvCtxErr i])")
  with Cons.prems c obtain ls1 where q: "q = Ret ls1"
    and l: "bundle_loop b ctx cb sg (Suc i) txs ls1 tr1 = (Ret ls', tr')"
    by (cases q) auto
  from bundle_step_adds [OF s [unfolded q]] obtain e where
    e: "ls_results ls1 = ls_results ls @ [e]"
       "e ''txHash'' = Some (JString (Hash_String (tx_Hash tx)))"
       "e ''gasUsed'' = Some (JUint64 (entry_gasUsed e))"
       "ls_totalGasUsed ls1 = ls_totalGasUsed ls + entry_gasUsed e"
       "ls_gasFees ls1 = ls_gasFees ls +
              sint (entry_gasUsed e) * fst (EffectiveGasTip b tx (hdr_BaseFee (ls_header ls)))"
       "ls_bundleHash ls1 = ls_bundleHash ls @ hash_Bytes (tx_Hash tx)"
       "hdr_BaseFee (ls_header ls1) = hdr_BaseFee (ls_header ls)"
       "hdr_Coinbase (ls_header ls1) = hdr_Coinbase (ls_header ls)"
    by blast
  from Cons.IH [OF l] obtain new where
    n: "ls_results ls' = ls_results ls1 @ new" "length new = length txs"
       "map (\<lambda>e. e ''txHash'') new = map (\<lambda>tx. Some (JString (Hash_String (tx_Hash tx)))) txs"
       "\<forall>e\<in>set new. e ''gasUsed'' = Some (JUint64 (entry_gasUsed e))"
       "ls_totalGasUsed ls' = ls_totalGasUsed ls1 + sum_list (map entry_gasUsed new)"
       "ls_gasFees ls' = ls_gasFees ls1 +
              sum_list (map (tx_fee b (hdr_BaseFee (ls_header ls1))) (zip txs new))"
       "ls_bundleHash ls' = ls_bundleHash ls1 @ concat (map (\<lambda>tx. hash_Bytes (tx_Hash tx)) txs)"
       "hdr_BaseFee (ls_header ls') = hdr_BaseFee (ls_header ls1)"
       "hdr_Coinbase (ls_header ls') = hdr_Coinbase (ls_header ls1)"
    by blast
  let ?new = "e # new"
  from e n have "ls_results ls' = ls_results ls @ ?new \<and> length ?new = length (tx # txs) \<and>
           map (\<lambda>e. e ''txHash'') ?new = map (\<lambda>tx. Some (JString (Hash_String (tx_Hash tx)))) (tx # txs) \<and>
           (\<forall>e\<in>set ?new. e ''gasUsed'' = Some (JUint64 (entry_gasUsed e))) \<and>
           ls_totalGasUsed ls' = ls_totalGasUsed ls + sum_list (map entry_gasUsed ?new) \<and>
           ls_gasFees ls' = ls_gasFees ls +
              sum_list (map (tx_fee b (hdr_BaseFee (ls_header ls))) (zip (tx # txs) ?new)) \<and>
           ls_bundleHash ls' = ls_bundleHash ls @ concat (map (\<lambda>tx. hash_Bytes (tx_Hash tx)) (tx # txs)) \<and>
           hdr_BaseFee (ls_header ls') = hdr_BaseFee (ls_header ls) \<and>
           hdr_Coinbase (ls_header ls') = hdr_Coinbase (ls_header ls)"
    by (simp add: tx_fee_def)
  then show ?case by blast
qed

section \<open>A call that returns a result, inverted\<close>

lemma prepareFinalResult_fields:
  assumes "prepareFinalResult b results state before coinbase gasFees totalGasUsed parent bundleHash = Ret m"
  shows "m ''results'' = Some (RResults results) \<and>
         m ''stateBlockNumber'' = Some (RInt64 (word_of_int (eth_Number parent))) \<and>
         m ''totalGasUsed'' = Some (RUint64 totalGasUsed) \<and>
         m ''coinbaseDiff'' = Some (RString (big_String (uint (GetBalance b state coinbase) - uint before))) \<and>
         m ''gasFees'' = Some (RString (big_String gasFees)) \<and>
         m ''ethSentToCoinbase'' =
           Some (RString (big_String (uint (GetBalance b state coinbase) - uint before - gasFees))) \<and>
         m ''bundleHash'' = Some (RString (''0x'' @ hex_Encode (Keccak256 b bundleHash)))"
  using assms
  by (auto simp: prepareFinalResult_def Let_def split: option.splits)

lemma bundle_execute_Some:
  assumes "bundle_execute b ctx args txs st parent tr0 = (Ret (Some m), tr)"
  shows "\<exists>ls'. bundle_loop b ctx (hdr_Coinbase (bundle_header b args parent))
                  (bundle_signer b (bundle_header b args parent)) 0 txs
                  (bundle_init st (bundle_header b args parent)) tr0 = (Ret ls', tr) \<and>
           prepareFinalResult b (ls_results ls') (ls_state ls')
             (GetBalance b st (hdr_Coinbase (bundle_header b args parent)))
             (hdr_Coinbase (bundle_header b args parent)) (ls_gasFees ls') (ls_totalGasUsed ls')
             (EthHeader b parent) (ls_bundleHash ls') = Ret m"
proof -
  let ?h = "bundle_header b args parent"
  let ?L = "bundle_loop b ctx (hdr_Coinbase ?h) (bundle_signer b ?h) 0 txs (bundle_init st ?h) tr0"
  obtain q tr1 where l: "?L = (q, tr1)" by (cases ?L)
  from assms l obtain ls' where q: "q = Ret ls'"
    by (cases q) (auto simp: bundle_execute_def Let_def)
  let ?P = "prepareFinalResult b (ls_results ls') (ls_state ls')
             (GetBalance b st (hdr_Coinbase ?h)) (hdr_Coinbase ?h) (ls_gasFees ls') (ls_totalGasUsed ls')
             (EthHeader b parent) (ls_bundleHash ls')"
  from assms l q have "?P = Ret m \<and> tr1 = tr"
    by (cases ?P) (auto simp: bundle_execute_def Let_def)
  with l q show ?thesis by blast
qed

lemma CallBundle_Some:
  assumes "CallBundle b ctx args = (Ret (Some m), tr)"
  shows "\<exists>txs st parent ls'.
           args_Txs args \<noteq> [] \<and> args_BlockNumber args \<noteq> 0 \<and>
           map (UnmarshalBinary b) (args_Txs args) = map Inr txs \<and>
           StateAndHeaderByNumberOrHash b (args_StateBlockNumberOrHash args) = Inr (Some st, parent) \<and>
           bundle_loop b ctx (hdr_Coinbase (bundle_header b args parent))
                  (bundle_signer b (bundle_header b args parent)) 0 txs
                  (bundle_init st (bundle_header b args parent))
                  (map EvUnmarshal (args_Txs args) @ [EvStateAndHeader (args_StateBlockNumberOrHash args)]) =
             (Ret ls', tr) \<and>
           prepareFinalResult b (ls_results ls') (ls_state ls')
             (GetBalance b st (hdr_Coinbase (bundle_header b args parent)))
             (hdr_Coinbase (bundle_header b args parent)) (ls_gasFees ls') (ls_totalGasUsed ls')
             (EthHeader b parent) (ls_bundleHash ls') = Ret m"
proof -
  from assms have "returns_result (fst (CallBundle b ctx args))"
    by (simp add: returns_result_def)
  from CallBundle_result_decoded [OF this] obtain txs st parent where
    v: "args_Txs args \<noteq> []" "args_BlockNumber args \<noteq> 0"
       "map (UnmarshalBinary b) (args_Txs args) = map Inr txs"
       "StateAndHeaderByNumberOrHash b (args_StateBlockNumberOrHash args) = Inr (Some st, parent)"
    and c: "CallBundle b ctx args = bundle_execute b ctx args txs st parent
               (map EvUnmarshal (args_Txs args) @ [EvStateAndHeader (args_StateBlockNumberOrHash args)])"
    by blast
  from bundle_execute_Some [OF c [unfolded assms, symmetric]] v show ?thesis by blast
qed

lemma unat_sum_list_word:
  fixes ws :: "uint64 list"
  assumes "sum_list (map unat ws) < 2 ^ 64"
  shows "unat (sum_list ws) = sum_list (map unat ws)"
  using assms
proof (induction ws)
  case Nil
  then show ?case by simp
next
  case (Cons w ws)
  then have "sum_list (map unat ws) < 2 ^ 64" by simp
  with Cons.IH have "unat (sum_list ws) = sum_list (map unat ws)" by simp
  with Cons.prems show ?case
    by (simp add: unat_word_ariths)
qed

section \<open>Results and total gas\<close>

text \<open>
  Whenever a call returns a result, every encoding was decoded to a transaction, the
  list \<open>results\<close> has one entry per encoding, the entries carry the hashes of the decoded
  transactions in the order of the input, and \<open>totalGasUsed\<close> is the sum of the
  entries' \<open>gasUsed\<close> in \<open>uint64\<close> arithmetic.
\<close>

lemma returned_results:
  assumes "CallBundle b ctx args = (Ret (Some m), tr)"
  shows "(\<exists>txs rs.
            map (UnmarshalBinary b) (args_Txs args) = map Inr txs \<and>
            m ''results'' = Some (RResults rs) \<and>
            length rs = length (args_Txs args) \<and>
            map (\<lambda>e. e ''txHash'') rs = map (\<lambda>tx. Some (JString (Hash_String (tx_Hash tx)))) txs \<and>
            (\<forall>e\<in>set rs. e ''gasUsed'' = Some (JUint64 (entry_gasUsed e))) \<and>
            m ''totalGasUsed'' = Some (RUint64 (sum_list (map entry_gasUsed rs))) \<and>
            (sum_list (map unat (map entry_gasUsed rs)) < 2 ^ 64 \<longrightarrow>
               unat (sum_list (map entry_gasUsed rs)) = sum_list (map unat (map entry_gasUsed rs))))"
proof -
  from CallBundle_Some [OF assms] obtain txs st parent ls' where
    d: "map (UnmarshalBinary b) (args_Txs args) = map Inr txs"
    and l: "bundle_loop b ctx (hdr_Coinbase (bundle_header b args parent))
                  (bundle_signer b (bundle_header b args parent)) 0 txs
                  (bundle_init st (bundle_header b args parent))
                  (map EvUnmarshal (args_Txs args) @ [EvStateAndHeader (args_StateBlockNumberOrHash args)]) =
             (Ret ls', tr)"
    and p: "prepareFinalResult b (ls_results ls') (ls_state ls')
             (GetBalance b st (hdr_Coinbase (bundle_header b args parent)))
             (hdr_Coinbase (bundle_header b args parent)) (ls_gasFees ls') (ls_totalGasUsed ls')
             (EthHeader b parent) (ls_bundleHash ls') = Ret m"
    by blast
  from d have len: "length txs = length (args_Txs args)"
    by (metis length_map)
  let ?i = "bundle_init st (bundle_header b args parent)"
  from bundle_loop_adds [OF l] obtain new where
    n0: "ls_results ls' = ls_results ?i @ new" "length new = length txs"
       "map (\<lambda>e. e ''txHash'') new = map (\<lambda>tx. Some (JString (Hash_String (tx_Hash tx)))) txs"
       "\<forall>e\<in>set new. e ''gasUsed'' = Some (JUint64 (entry_gasUsed e))"
       "ls_totalGasUsed ls' = ls_totalGasUsed ?i + sum_list (map entry_gasUsed new)"
    by blast
  have r: "ls_results ls' = new"
    using n0(1) by (simp add: bundle_init_def)
  have g: "ls_totalGasUsed ls' = sum_list (map entry_gasUsed new)"
    using n0(5) by (simp add: bundle_init_def)
  have f1: "m ''results'' = Some (RResults new)"
    using prepareFinalResult_fields [OF p] r by simp
  have f2: "m ''totalGasUsed'' = Some (RUint64 (sum_list (map entry_gasUsed new)))"
    using prepareFinalResult_fields [OF p] g by simp
  have f3: "length new = length (args_Txs args)"
    using n0(2) len by simp
  have f4: "sum_list (map unat (map entry_gasUsed new)) < 2 ^ 64 \<longrightarrow>
               unat (sum_list (map entry_gasUsed new)) = sum_list (map unat (map entry_gasUsed new))"
    using unat_sum_list_word [of "map entry_gasUsed new"] by blast
  from d f1 f2 f3 f4 n0(3) n0(4) have 1: "\<exists>txs rs.
            map (UnmarshalBinary b) (args_Txs args) = map Inr txs \<and>
            m ''results'' = Some (RResults rs) \<and>
            length rs = length (args_Txs args) \<and>
            map (\<lambda>e. e ''txHash'') rs = map (\<lambda>tx. Some (JString (Hash_String (tx_Hash tx)))) txs \<and>
            (\<forall>e\<in>set rs. e ''gasUsed'' = Some (JUint64 (entry_gasUsed e))) \<and>
            m ''totalGasUsed'' = Some (RUint64 (sum_list (map entry_gasUsed rs))) \<and>
            (sum_list (map unat (map entry_gasUsed rs)) < 2 ^ 64 \<longrightarrow>
               unat (sum_list (map entry_gasUsed rs)) = sum_list (map unat (map entry_gasUsed rs)))"
    by blast
  from 1 show ?thesis .
qed

lemma demo_three_run:
  "returns_result (fst (CallBundle demo_backend ctx_live (demo_args [[1, 10, 0], [2, 20, 1], [3, 5, 5]]))) \<and>
   map entry_gasUsed (bundle_results (fst (CallBundle demo_backend ctx_live (demo_args [[1, 10, 0], [2, 20, 1], [3, 5, 5]])))) =
     [10, 20, 5]"
  by code_simp

lemma returns_resultE:
  assumes "returns_result (fst c)"
  obtains m tr where "c = (Ret (Some m), tr)"
  using assms
  by (cases c) (auto simp: returns_result_def split: outcome.splits option.splits)

section \<open>Coinbase accounting\<close>

lemma sint_uint64_small:
  fixes g :: uint64
  assumes "unat g < 2 ^ 63"
  shows "sint g = int (unat g)"
proof -
  have "int (unat g) < int (2 ^ 63)"
    using assms by (simp only: of_nat_less_iff)
  then have u: "uint g < 2 ^ 63" by simp
  have "sint g = signed_take_bit 63 (uint g)"
    by (simp add: sint_uint)
  also have "\<dots> = uint g"
  proof (rule signed_take_bit_int_eq_self)
    have "(0::int) \<le> uint g" by simp
    then show "- (2 ^ 63) \<le> uint g" by (simp add: order_trans [of _ 0])
    show "uint g < 2 ^ 63" by (rule u)
  qed
  finally show ?thesis by simp
qed

lemma bundle_step_accounting:
  assumes k: "EthHeader_keeps b"
    and s: "bundle_step b cb sg i tx ls tr = (Ret ls', tr')"
    and c: "hdr_Coinbase (ls_header ls) = cb"
  shows "\<exists>e. ls_results ls' = ls_results ls @ [e] \<and>
     e ''coinbaseDiff'' =
       Some (JString (big_String (uint (GetBalance b (ls_state ls') cb) - uint (GetBalance b (ls_state ls) cb)))) \<and>
     e ''gasFees'' = Some (JString (big_String (tx_fee b (hdr_BaseFee (ls_header ls)) (tx, e)))) \<and>
     e ''ethSentToCoinbase'' =
       Some (JString (big_String (uint (GetBalance b (ls_state ls') cb) - uint (GetBalance b (ls_state ls) cb) -
               tx_fee b (hdr_BaseFee (ls_header ls)) (tx, e))))"
proof -
  from bundle_step_Ret [OF s] obtain msg tr1 receipt result gp' st' used' e gasPrice where
    p: "processTransactionResult b tx receipt result sg
       (EthHeader b ((ls_header ls)\<lparr>hdr_GasUsed := used'\<rparr>)) (GetBalance b (ls_state ls) cb) st' = Ret e"
    and l: "ls' = \<lparr>ls_state = st', ls_gp = gp', ls_header = (ls_header ls)\<lparr>hdr_GasUsed := used'\<rparr>,
            ls_results = ls_results ls @ [e],
            ls_totalGasUsed = ls_totalGasUsed ls + rcpt_GasUsed receipt,
            ls_gasFees = ls_gasFees ls + sint (rcpt_GasUsed receipt) * gasPrice,
            ls_bundleHash = ls_bundleHash ls @ hash_Bytes (tx_Hash tx)\<rparr>"
    by blast
  let ?h = "(ls_header ls)\<lparr>hdr_GasUsed := used'\<rparr>"
  from k have h: "eth_Coinbase (EthHeader b ?h) = cb" "eth_BaseFee (EthHeader b ?h) = hdr_BaseFee (ls_header ls)"
    using c by (simp_all add: EthHeader_keeps_def)
  have st: "ls_state ls' = st'" and rs: "ls_results ls' = ls_results ls @ [e]"
    using l by simp_all
  from processTransactionResult_fields [OF p] entry_gasUsed_processed [OF p] h st rs
  show ?thesis
    by (simp add: tx_fee_def)
qed

lemma bundle_loop_fees:
  assumes k: "EthHeader_keeps b"
    and l: "bundle_loop b ctx cb sg i txs ls tr = (Ret ls', tr')"
    and c: "hdr_Coinbase (ls_header ls) = cb"
  shows "\<exists>new. ls_results ls' = ls_results ls @ new \<and>
           list_all2 (\<lambda>tx e. e ''gasFees'' = Some (JString (big_String (tx_fee b (hdr_BaseFee (ls_header ls)) (tx, e)))))
             txs new"
  using l c
proof (induction txs arbitrary: i ls tr)
  case Nil
  then show ?case by simp
next
  case (Cons tx txs)
  from Cons.prems(1) have c0: "ctx i = None"
    by (cases "ctx i") auto
  obtain q tr1 where s: "bundle_step b cb sg i tx ls (tr @ [EvCtxErr i]) = (q, tr1)"
    by (cases "bundle_step b cb sg i tx ls (tr @ [EvCtxErr i])")
  with Cons.prems(1) c0 obtain ls1 where q: "q = Ret ls1"
    and l1: "bundle_loop b ctx cb sg (Suc i) txs ls1 tr1 = (Ret ls', tr')"
    by (cases q) auto
  from bundle_step_accounting [OF k s [unfolded q] Cons.prems(2)] obtain e where
    e: "ls_results ls1 = ls_results ls @ [e]"
       "e ''gasFees'' = Some (JString (big_String (tx_fee b (hdr_BaseFee (ls_header ls)) (tx, e))))"
    by blast
  from bundle_step_adds [OF s [unfolded q]] have
    h: "hdr_BaseFee (ls_header ls1) = hdr_BaseFee (ls_header ls)"
       "hdr_Coinbase (ls_header ls1) = hdr_Coinbase (ls_header ls)"
    by blast+
  from h(2) Cons.prems(2) have c1: "hdr_Coinbase (ls_header ls1) = cb" by simp
  from Cons.IH [OF l1 c1] obtain new where
    n: "ls_results ls' = ls_results ls1 @ new"
       "list_all2 (\<lambda>tx e. e ''gasFees'' = Some (JString (big_String (tx_fee b (hdr_BaseFee (ls_header ls1)) (tx, e)))))
             txs new"
    by blast
  from e n h(1) have "ls_results ls' = ls_results ls @ (e # new) \<and>
           list_all2 (\<lambda>tx e. e ''gasFees'' = Some (JString (big_String (tx_fee b (hdr_BaseFee (ls_header ls)) (tx, e)))))
             (tx # txs) (e # new)"
    by simp
  then show ?case by blast
qed

lemma bundle_string_Some:
  assumes "bundle_string r k = Some s"
  shows "bundle_field r k = Some (RString s)"
  using assms by (auto simp: bundle_string_def split: option.splits rvalue.splits)

lemma demo_three_strings:
  "bundle_string (fst (CallBundle demo_backend ctx_live (demo_args [[1, 10, 0], [2, 20, 1], [3, 5, 5]]))) ''coinbaseDiff'' =
     Some ''80'' \<and>
   bundle_string (fst (CallBundle demo_backend ctx_live (demo_args [[1, 10, 0], [2, 20, 1], [3, 5, 5]]))) ''gasFees'' =
     Some ''70'' \<and>
   bundle_string (fst (CallBundle demo_backend ctx_live (demo_args [[1, 10, 0], [2, 20, 1], [3, 5, 5]]))) ''ethSentToCoinbase'' =
     Some ''10''"
  by code_simp

lemma demo_three_accounts:
  "bundle_field (fst (CallBundle demo_backend ctx_live (demo_args [[1, 10, 0], [2, 20, 1], [3, 5, 5]]))) ''coinbaseDiff'' =
     Some (RString ''80'') \<and>
   bundle_field (fst (CallBundle demo_backend ctx_live (demo_args [[1, 10, 0], [2, 20, 1], [3, 5, 5]]))) ''gasFees'' =
     Some (RString ''70'') \<and>
   bundle_field (fst (CallBundle demo_backend ctx_live (demo_args [[1, 10, 0], [2, 20, 1], [3, 5, 5]]))) ''ethSentToCoinbase'' =
     Some (RString ''10'')"
  using demo_three_strings by (intro conjI bundle_string_Some) simp_all

lemma demo_step_runs:
  "(case fst (bundle_step demo_backend 7 (101, 0) 0 demo_tx demo_ls []) of Ret l \<Rightarrow> True | _ \<Rightarrow> False)"
  by code_simp

lemma demo_EthHeader_keeps: "EthHeader_keeps demo_backend"
  by (simp add: EthHeader_keeps_def demo_backend_def)

section \<open>The bundle hash\<close>

lemma concat_map_inj:
  assumes len: "\<And>x. length (f x) = n" and pos: "0 < n" and inj: "\<And>x y. f x = f y \<Longrightarrow> x = y"
    and eq: "concat (map f xs) = concat (map f ys)"
  shows "xs = ys"
  using eq
proof (induction xs arbitrary: ys)
  case Nil
  show ?case
  proof (cases ys)
    case Nil
    then show ?thesis by simp
  next
    case (Cons y ys')
    with Nil have "f y = []" by simp
    with len [of y] pos show ?thesis by simp
  qed
next
  case (Cons x xs)
  show ?case
  proof (cases ys)
    case Nil
    with Cons.prems have "f x = []" by simp
    with len [of x] pos show ?thesis by simp
  next
    case c: (Cons y ys')
    with Cons.prems have "f x @ concat (map f xs) = f y @ concat (map f ys')" by simp
    moreover have "length (f x) = length (f y)" by (simp add: len)
    ultimately have "f x = f y" and "concat (map f xs) = concat (map f ys')" by simp_all
    with Cons.IH [of ys'] inj c show ?thesis by simp
  qed
qed

lemma length_hash_Bytes: "length (hash_Bytes h) = 32"
  by (simp add: hash_Bytes_def)

lemma hash_Bytes_nth:
  assumes "i < 32"
  shows "hash_Bytes h ! i = ucast (drop_bit (8 * (31 - i)) h)"
  using assms by (simp add: hash_Bytes_def)

lemma hash_Bytes_inj:
  assumes "hash_Bytes h = hash_Bytes h'"
  shows "h = h'"
proof (rule bit_word_eqI)
  fix n
  assume n: "n < LENGTH(256)"
  let ?i = "31 - n div 8"
  from n have i: "?i < 32" and k: "8 * (31 - ?i) = 8 * (n div 8)" by simp_all
  from assms have "hash_Bytes h ! ?i = hash_Bytes h' ! ?i" by simp
  with i k have "(ucast (drop_bit (8 * (n div 8)) h) :: byte) = ucast (drop_bit (8 * (n div 8)) h')"
    by (simp only: hash_Bytes_nth)
  then have "bit (ucast (drop_bit (8 * (n div 8)) h) :: byte) (n mod 8) =
             bit (ucast (drop_bit (8 * (n div 8)) h') :: byte) (n mod 8)"
    by simp
  moreover have "8 * (n div 8) + n mod 8 = n" by simp
  ultimately show "bit h n = bit h' n"
    by (simp add: bit_ucast_iff bit_drop_bit_eq)
qed

lemma hash_stream_inj:
  "hash_stream txs = hash_stream txs' \<longleftrightarrow> map tx_Hash txs = map tx_Hash txs'"
proof
  assume "hash_stream txs = hash_stream txs'"
  then have "concat (map hash_Bytes (map tx_Hash txs)) = concat (map hash_Bytes (map tx_Hash txs'))"
    by (simp add: hash_stream_def comp_def)
  then show "map tx_Hash txs = map tx_Hash txs'"
    by (rule concat_map_inj [where n = 32, rotated 3]) (simp_all add: length_hash_Bytes hash_Bytes_inj)
next
  assume "map tx_Hash txs = map tx_Hash txs'"
  then have "map hash_Bytes (map tx_Hash txs) = map hash_Bytes (map tx_Hash txs')" by simp
  then show "hash_stream txs = hash_stream txs'"
    by (simp add: hash_stream_def comp_def)
qed

lemma hex_byte_inj:
  assumes "hex_byte a = hex_byte b"
  shows "a = b"
proof -
  have d: "distinct hexdigits" and l: "length hexdigits = 16"
    by (simp_all add: hexdigits_def)
  have ua: "unat a < 256" and ub: "unat b < 256"
    using unsigned_less [of a, where 'a = nat] unsigned_less [of b, where 'a = nat] by simp_all
  then have r: "unat a div 16 < 16" "unat b div 16 < 16" "unat a mod 16 < 16" "unat b mod 16 < 16"
    by simp_all
  from assms have "hexdigits ! (unat a div 16) = hexdigits ! (unat b div 16)"
    and "hexdigits ! (unat a mod 16) = hexdigits ! (unat b mod 16)"
    by (simp_all add: hex_byte_def)
  with d l r have "unat a div 16 = unat b div 16" and "unat a mod 16 = unat b mod 16"
    by (simp_all add: nth_eq_iff_index_eq)
  then have "unat a = unat b"
    by (metis div_mult_mod_eq)
  then show ?thesis by (rule word_unat_eq_iff [THEN iffD2])
qed

lemma hex_Encode_inj:
  assumes "hex_Encode xs = hex_Encode ys"
  shows "xs = ys"
  using assms unfolding hex_Encode_def
  by (rule concat_map_inj [where n = 2, rotated 3]) (simp_all add: hex_byte_def hex_byte_inj)

lemma CallBundle_bundleHash:
  assumes c: "CallBundle b ctx args = (Ret (Some m), tr)"
    and d: "map (UnmarshalBinary b) (args_Txs args) = map Inr txs"
  shows "m ''bundleHash'' = Some (RString (''0x'' @ hex_Encode (Keccak256 b (hash_stream txs))))"
proof -
  from CallBundle_Some [OF c] obtain txs0 st parent lsF where
    d0: "map (UnmarshalBinary b) (args_Txs args) = map Inr txs0"
    and l: "bundle_loop b ctx (hdr_Coinbase (bundle_header b args parent))
                  (bundle_signer b (bundle_header b args parent)) 0 txs0
                  (bundle_init st (bundle_header b args parent))
                  (map EvUnmarshal (args_Txs args) @ [EvStateAndHeader (args_StateBlockNumberOrHash args)]) =
             (Ret lsF, tr)"
    and p: "prepareFinalResult b (ls_results lsF) (ls_state lsF)
             (GetBalance b st (hdr_Coinbase (bundle_header b args parent)))
             (hdr_Coinbase (bundle_header b args parent)) (ls_gasFees lsF) (ls_totalGasUsed lsF)
             (EthHeader b parent) (ls_bundleHash lsF) = Ret m"
    by blast
  from d d0 have t: "txs0 = txs"
    by (metis inj_map_eq_map [OF inj_Inr])
  from bundle_loop_adds [OF l] have
    "ls_bundleHash lsF = ls_bundleHash (bundle_init st (bundle_header b args parent)) @
        concat (map (\<lambda>tx. hash_Bytes (tx_Hash tx)) txs0)"
    by blast
  then have h: "ls_bundleHash lsF = hash_stream txs"
    using t by (simp add: bundle_init_def hash_stream_def)
  from prepareFinalResult_fields [OF p] h show ?thesis by simp
qed

text \<open>
  C7. When the call returns a result, \<open>bundleHash\<close> is \<open>0x\<close> followed by the hex
  encoding of the digest of the bytes of the transactions' hashes, concatenated in the
  order of execution and digested once. Two calls that use the same digest function on
  the same sequence of hashes report the same \<open>bundleHash\<close>. Two calls on different
  sequences of hashes (a reordering that changes the sequence is one case) feed different
  bytes to the digest, and report different values of \<open>bundleHash\<close> unless the two byte
  strings collide under the digest function.
\<close>

theorem bundleHash_digest:
  assumes "CallBundle b ctx args = (Ret (Some m), tr)"
    and "map (UnmarshalBinary b) (args_Txs args) = map Inr txs"
  shows "m ''bundleHash'' = Some (RString (''0x'' @ hex_Encode (Keccak256 b (hash_stream txs)))) \<and>
         (CallBundle b' ctx' args' = (Ret (Some m'), tr') \<and>
          map (UnmarshalBinary b') (args_Txs args') = map Inr txs' \<and>
          Keccak256 b' = Keccak256 b \<longrightarrow>
            (map tx_Hash txs' = map tx_Hash txs \<longrightarrow> m' ''bundleHash'' = m ''bundleHash'') \<and>
            (map tx_Hash txs' \<noteq> map tx_Hash txs \<longrightarrow>
               hash_stream txs' \<noteq> hash_stream txs \<and>
               (Keccak256 b (hash_stream txs') \<noteq> Keccak256 b (hash_stream txs) \<longrightarrow>
                  m' ''bundleHash'' \<noteq> m ''bundleHash'')))"
proof (intro conjI impI)
  show 1: "m ''bundleHash'' = Some (RString (''0x'' @ hex_Encode (Keccak256 b (hash_stream txs))))"
    by (rule CallBundle_bundleHash [OF assms])
  {
    assume h: "CallBundle b' ctx' args' = (Ret (Some m'), tr') \<and>
          map (UnmarshalBinary b') (args_Txs args') = map Inr txs' \<and>
          Keccak256 b' = Keccak256 b"
    then have 2: "m' ''bundleHash'' = Some (RString (''0x'' @ hex_Encode (Keccak256 b (hash_stream txs'))))"
      using CallBundle_bundleHash [of b' ctx' args' m' tr' txs'] by simp
    {
      assume "map tx_Hash txs' = map tx_Hash txs"
      then have "hash_stream txs' = hash_stream txs"
        by (simp add: hash_stream_inj)
      with 1 2 show "m' ''bundleHash'' = m ''bundleHash''" by simp
    }
    {
      assume "Keccak256 b (hash_stream txs') \<noteq> Keccak256 b (hash_stream txs)"
      then have "hex_Encode (Keccak256 b (hash_stream txs')) \<noteq> hex_Encode (Keccak256 b (hash_stream txs))"
        using hex_Encode_inj by blast
      with 1 2 show "m' ''bundleHash'' \<noteq> m ''bundleHash''" by simp
    }
  }
  {
    assume "map tx_Hash txs' \<noteq> map tx_Hash txs"
    then show "hash_stream txs' \<noteq> hash_stream txs"
      by (simp add: hash_stream_inj)
  }
qed

lemma demo_swap_runs:
  "returns_result (fst (CallBundle demo_backend ctx_live (demo_args [[1, 10, 0], [2, 10, 0]]))) \<and>
   returns_result (fst (CallBundle demo_backend ctx_live (demo_args [[2, 10, 0], [1, 10, 0]]))) \<and>
   returns_result (fst (CallBundle demo_backend (ctx_cancelled_from 2) (demo_args [[1, 10, 0], [2, 10, 0]])))"
  by code_simp

lemma demo_swap_digests:
  "Keccak256 demo_backend (hash_stream
       [\<lparr>tx_Hash = 2, tx_To = Some 5, tx_Gas = 10, tx_Data = [0]\<rparr>,
        \<lparr>tx_Hash = 1, tx_To = Some 5, tx_Gas = 10, tx_Data = [0]\<rparr>]) \<noteq>
   Keccak256 demo_backend (hash_stream
       [\<lparr>tx_Hash = 1, tx_To = Some 5, tx_Gas = 10, tx_Data = [0]\<rparr>,
        \<lparr>tx_Hash = 2, tx_To = Some 5, tx_Gas = 10, tx_Data = [0]\<rparr>])"
  by code_simp

theorem bundleHash_digest_witness:
  "returns_result (fst (CallBundle demo_backend ctx_live (demo_args [[1, 10, 0], [2, 10, 0]]))) \<and>
   bundle_field (fst (CallBundle demo_backend ctx_live (demo_args [[1, 10, 0], [2, 10, 0]]))) ''bundleHash'' =
     Some (RString (''0x'' @ hex_Encode (Keccak256 demo_backend (hash_stream
       [\<lparr>tx_Hash = 1, tx_To = Some 5, tx_Gas = 10, tx_Data = [0]\<rparr>,
        \<lparr>tx_Hash = 2, tx_To = Some 5, tx_Gas = 10, tx_Data = [0]\<rparr>])))) \<and>
   bundle_field (fst (CallBundle demo_backend (ctx_cancelled_from 2) (demo_args [[1, 10, 0], [2, 10, 0]]))) ''bundleHash'' =
     bundle_field (fst (CallBundle demo_backend ctx_live (demo_args [[1, 10, 0], [2, 10, 0]]))) ''bundleHash'' \<and>
   bundle_field (fst (CallBundle demo_backend ctx_live (demo_args [[2, 10, 0], [1, 10, 0]]))) ''bundleHash'' \<noteq>
     bundle_field (fst (CallBundle demo_backend ctx_live (demo_args [[1, 10, 0], [2, 10, 0]]))) ''bundleHash''"
proof -
  let ?a = "demo_args [[1, 10, 0], [2, 10, 0]]"
  let ?a' = "demo_args [[2, 10, 0], [1, 10, 0]]"
  let ?t1 = "\<lparr>tx_Hash = 1, tx_To = Some 5, tx_Gas = 10, tx_Data = [0]\<rparr>"
  let ?t2 = "\<lparr>tx_Hash = 2, tx_To = Some 5, tx_Gas = 10, tx_Data = [0]\<rparr>"
  let ?c = "CallBundle demo_backend ctx_live ?a"
  let ?c' = "CallBundle demo_backend ctx_live ?a'"
  let ?c2 = "CallBundle demo_backend (ctx_cancelled_from 2) ?a"
  from demo_swap_runs have rr: "returns_result (fst ?c)" "returns_result (fst ?c')" "returns_result (fst ?c2)"
    by blast+
  from rr(1) returns_resultE [of ?c] obtain m tr where c: "?c = (Ret (Some m), tr)" by blast
  from rr(2) returns_resultE [of ?c'] obtain m' tr' where c': "?c' = (Ret (Some m'), tr')" by blast
  from rr(3) returns_resultE [of ?c2] obtain m2 tr2 where c2: "?c2 = (Ret (Some m2), tr2)" by blast
  have d: "map (UnmarshalBinary demo_backend) (args_Txs ?a) = map Inr [?t1, ?t2]"
    by (simp add: demo_args_def demo_backend_def demo_decode_def)
  have d': "map (UnmarshalBinary demo_backend) (args_Txs ?a') = map Inr [?t2, ?t1]"
    by (simp add: demo_args_def demo_backend_def demo_decode_def)
  have ne: "map tx_Hash [?t2, ?t1] \<noteq> map tx_Hash [?t1, ?t2]" and eq: "map tx_Hash [?t1, ?t2] = map tx_Hash [?t1, ?t2]"
    by simp_all
  from bundleHash_digest [OF c d, of demo_backend ctx_live ?a' m' tr' "[?t2, ?t1]"] c' d' ne demo_swap_digests
  have 1: "m ''bundleHash'' = Some (RString (''0x'' @ hex_Encode (Keccak256 demo_backend (hash_stream [?t1, ?t2]))))"
    and 2: "m' ''bundleHash'' \<noteq> m ''bundleHash''"
    by blast+
  from bundleHash_digest [OF c d, of demo_backend "ctx_cancelled_from 2" ?a m2 tr2 "[?t1, ?t2]"] c2 d eq
  have 3: "m2 ''bundleHash'' = m ''bundleHash''"
    by blast
  from rr(1) 1 2 3 c c' c2 show ?thesis
    by (simp add: bundle_field_def)
qed

section \<open>The log previewer\<close>

lemma simulateTx_success:
  assumes t: "GetTransaction b txHash = Inr (Some tx)"
    and s: "StateAndHeaderByNumberOrHash b (ByNumber (word_of_int (hdr_Number (CurrentBlock b)))) = Inr (Some st, p)"
    and m: "TransactionToMessage b tx (hdr_Number (simulate_header b), hdr_Time (simulate_header b))
              (hdr_BaseFee (simulate_header b)) = Inr msg"
    and v: "backend_GetEVM b msg (SetTxContext b (tx_Hash tx) 0 st) (simulate_header b) = None"
    and a: "fst (ApplyTransactionWithResult b msg (tx_Gas tx) (SetTxContext b (tx_Hash tx) 0 st)
                  (simulate_header b) tx) = Inr (receipt, result)"
  shows "simulateTx b txHash =
           (Ret (rcpt_Logs receipt),
            [EvGetTransaction txHash,
             EvStateAndHeader (ByNumber (word_of_int (hdr_Number (CurrentBlock b)))),
             EvGetEVM (tx_Hash tx), EvApply (tx_Hash tx) (tx_Gas tx)])"
proof -
  obtain rest where
    "ApplyTransactionWithResult b msg (tx_Gas tx) (SetTxContext b (tx_Hash tx) 0 st) (simulate_header b) tx =
       (Inr (receipt, result), rest)"
    using a
    by (cases "ApplyTransactionWithResult b msg (tx_Gas tx) (SetTxContext b (tx_Hash tx) 0 st) (simulate_header b) tx")
      auto
  with t s m v show ?thesis
    by (simp add: simulateTx_def GetEVM_def Let_def)
qed

text \<open>
  The header of the preview sits on the current chain head: its parent hash is the
  head's hash and its number the head's number plus one, and the state is the one at the
  head's number. A lookup of the transaction that fails with an error makes the call
  return that error, with no state read and nothing executed. When the lookup, the state
  access, the message and the virtual machine succeed and the engine applies the
  transaction, the engine is invoked once, with a gas pool equal to the transaction's gas
  limit, and the call returns the logs of the receipt; with an empty list of logs it
  returns the empty list.
\<close>

lemma simulateTx_preview:
  "hdr_ParentHash (simulate_header b) = hdr_Hash (CurrentBlock b) \<and>
   hdr_Number (simulate_header b) = hdr_Number (CurrentBlock b) + 1 \<and>
   (GetTransaction b txHash = Inl err \<longrightarrow>
      simulateTx b txHash = (Err err, [EvGetTransaction txHash])) \<and>
   (GetTransaction b txHash = Inr (Some tx) \<and>
    StateAndHeaderByNumberOrHash b (ByNumber (word_of_int (hdr_Number (CurrentBlock b)))) = Inr (Some st, p) \<and>
    TransactionToMessage b tx (hdr_Number (simulate_header b), hdr_Time (simulate_header b))
       (hdr_BaseFee (simulate_header b)) = Inr msg \<and>
    backend_GetEVM b msg (SetTxContext b (tx_Hash tx) 0 st) (simulate_header b) = None \<and>
    fst (ApplyTransactionWithResult b msg (tx_Gas tx) (SetTxContext b (tx_Hash tx) 0 st)
           (simulate_header b) tx) = Inr (receipt, result) \<longrightarrow>
      simulateTx b txHash =
        (Ret (rcpt_Logs receipt),
         [EvGetTransaction txHash,
          EvStateAndHeader (ByNumber (word_of_int (hdr_Number (CurrentBlock b)))),
          EvGetEVM (tx_Hash tx), EvApply (tx_Hash tx) (tx_Gas tx)]) \<and>
      (rcpt_Logs receipt = [] \<longrightarrow> fst (simulateTx b txHash) = Ret []))"
proof (intro conjI impI)
  show "hdr_ParentHash (simulate_header b) = hdr_Hash (CurrentBlock b)"
    by (simp add: simulate_header_def Let_def)
  show "hdr_Number (simulate_header b) = hdr_Number (CurrentBlock b) + 1"
    by (simp add: simulate_header_def Let_def)
next
  assume "GetTransaction b txHash = Inl err"
  then show "simulateTx b txHash = (Err err, [EvGetTransaction txHash])"
    by (simp add: simulateTx_def)
next
  assume h: "GetTransaction b txHash = Inr (Some tx) \<and>
    StateAndHeaderByNumberOrHash b (ByNumber (word_of_int (hdr_Number (CurrentBlock b)))) = Inr (Some st, p) \<and>
    TransactionToMessage b tx (hdr_Number (simulate_header b), hdr_Time (simulate_header b))
       (hdr_BaseFee (simulate_header b)) = Inr msg \<and>
    backend_GetEVM b msg (SetTxContext b (tx_Hash tx) 0 st) (simulate_header b) = None \<and>
    fst (ApplyTransactionWithResult b msg (tx_Gas tx) (SetTxContext b (tx_Hash tx) 0 st)
           (simulate_header b) tx) = Inr (receipt, result)"
  then show r: "simulateTx b txHash =
        (Ret (rcpt_Logs receipt),
         [EvGetTransaction txHash,
          EvStateAndHeader (ByNumber (word_of_int (hdr_Number (CurrentBlock b)))),
          EvGetEVM (tx_Hash tx), EvApply (tx_Hash tx) (tx_Gas tx)])"
    using simulateTx_success [of b txHash tx st p msg receipt result] by blast
  assume "rcpt_Logs receipt = []"
  with r show "fst (simulateTx b txHash) = Ret []" by simp
qed

lemma simulateTx_demo_runs:
  "simulateTx demo_backend 2 = (Err (Collaborator ''transaction not found''), [EvGetTransaction 2]) \<and>
   simulateTx demo_backend 1 =
     (Ret [], [EvGetTransaction 1, EvStateAndHeader (ByNumber 100), EvGetEVM 1, EvApply 1 21000]) \<and>
   hdr_ParentHash (simulate_header demo_backend) = 170 \<and>
   hdr_Number (simulate_header demo_backend) = 101"
proof -
  let ?tx = "\<lparr>tx_Hash = 1, tx_To = Some 5, tx_Gas = 21000, tx_Data = []\<rparr>"
  let ?msg = "\<lparr>msg_From = 3, msg_GasPrice = 2\<rparr>"
  let ?r = "\<lparr>rcpt_GasUsed = 21000, rcpt_Logs = []\<rparr>"
  let ?x = "\<lparr>exec_Err = None, exec_ReturnData = [171]\<rparr>"
  have g2: "GetTransaction demo_backend 2 = Inl (Collaborator ''transaction not found'')"
    by (simp add: demo_backend_def)
  have g1: "GetTransaction demo_backend 1 = Inr (Some ?tx)"
    by (simp add: demo_backend_def)
  have cur: "CurrentBlock demo_backend = demo_parent" "hdr_Number demo_parent = 100" "hdr_Hash demo_parent = 170"
    by (simp_all add: demo_backend_def demo_parent_def)
  have s: "StateAndHeaderByNumberOrHash demo_backend (ByNumber (word_of_int (hdr_Number (CurrentBlock demo_backend)))) =
             Inr (Some 1000, demo_parent)"
    by (simp add: demo_backend_def)
  have m: "TransactionToMessage demo_backend ?tx
             (hdr_Number (simulate_header demo_backend), hdr_Time (simulate_header demo_backend))
             (hdr_BaseFee (simulate_header demo_backend)) = Inr ?msg"
    by (simp add: demo_backend_def)
  have v: "backend_GetEVM demo_backend ?msg (SetTxContext demo_backend (tx_Hash ?tx) 0 1000)
             (simulate_header demo_backend) = None"
    by (simp add: demo_backend_def)
  have a: "fst (ApplyTransactionWithResult demo_backend ?msg (tx_Gas ?tx)
             (SetTxContext demo_backend (tx_Hash ?tx) 0 1000) (simulate_header demo_backend) ?tx) = Inr (?r, ?x)"
    by (simp add: demo_backend_def demo_apply_def)
  note inst2 = simulateTx_preview [of demo_backend 2 "Collaborator ''transaction not found''"]
  note inst1 = simulateTx_preview [of demo_backend 1 _ ?tx 1000 demo_parent ?msg ?r ?x]
  from inst2 g2 have 1: "simulateTx demo_backend 2 = (Err (Collaborator ''transaction not found''), [EvGetTransaction 2])"
    by blast
  from inst1 g1 s m v a have 2: "simulateTx demo_backend 1 =
        (Ret (rcpt_Logs ?r),
         [EvGetTransaction 1,
          EvStateAndHeader (ByNumber (word_of_int (hdr_Number (CurrentBlock demo_backend)))),
          EvGetEVM (tx_Hash ?tx), EvApply (tx_Hash ?tx) (tx_Gas ?tx)])"
    by blast
  from inst1 cur have 3: "hdr_ParentHash (simulate_header demo_backend) = 170"
    and 4: "hdr_Number (simulate_header demo_backend) = 101"
    by simp_all
  from 1 2 3 4 cur show ?thesis by simp
qed

section \<open>When every transaction applies\<close>












section \<open>Coinbase accounting, entry by entry\<close>

lemma bundle_step_accounting_engine:
  assumes k: "EthHeader_keeps b"
    and s: "bundle_step b cb sg i tx ls tr = (Ret ls', tr')"
    and c: "hdr_Coinbase (ls_header ls) = cb"
  shows "\<exists>e msg tr1 receipt result gp' used'.
               GetEVM b (SetTxContext b (tx_Hash tx) i (ls_state ls)) (ls_header ls) tx tr = (Inr msg, tr1) \<and>
               ApplyTransactionWithResult b msg (ls_gp ls) (SetTxContext b (tx_Hash tx) i (ls_state ls))
                  (ls_header ls) tx = (Inr (receipt, result), gp', ls_state ls', used') \<and>
               ls_results ls' = ls_results ls @ [e] \<and>
               e ''gasUsed'' = Some (JUint64 (rcpt_GasUsed receipt)) \<and>
               e ''coinbaseDiff'' =
                 Some (JString (big_String (uint (GetBalance b (ls_state ls') cb) -
                                            uint (GetBalance b (ls_state ls) cb)))) \<and>
               e ''gasFees'' =
                 Some (JString (big_String (sint (rcpt_GasUsed receipt) *
                                            fst (EffectiveGasTip b tx (hdr_BaseFee (ls_header ls)))))) \<and>
               e ''ethSentToCoinbase'' =
                 Some (JString (big_String (uint (GetBalance b (ls_state ls') cb) -
                                            uint (GetBalance b (ls_state ls) cb) -
                                            sint (rcpt_GasUsed receipt) *
                                            fst (EffectiveGasTip b tx (hdr_BaseFee (ls_header ls)))))) \<and>
               (unat (rcpt_GasUsed receipt) < 2 ^ 63 \<longrightarrow>
                  e ''gasFees'' =
                    Some (JString (big_String (int (unat (rcpt_GasUsed receipt)) *
                                               fst (EffectiveGasTip b tx (hdr_BaseFee (ls_header ls)))))))"
proof -
  let ?st1 = "SetTxContext b (tx_Hash tx) i (ls_state ls)"
  from bundle_step_Ret [OF s] obtain msg tr1 receipt result gp' st' used' e gasPrice where
    g: "GetEVM b ?st1 (ls_header ls) tx tr = (Inr msg, tr1)"
    and a: "ApplyTransactionWithResult b msg (ls_gp ls) ?st1 (ls_header ls) tx = (Inr (receipt, result), gp', st', used')"
    and p: "processTransactionResult b tx receipt result sg
       (EthHeader b ((ls_header ls)\<lparr>hdr_GasUsed := used'\<rparr>)) (GetBalance b (ls_state ls) cb) st' = Ret e"
    and l: "ls' = \<lparr>ls_state = st', ls_gp = gp', ls_header = (ls_header ls)\<lparr>hdr_GasUsed := used'\<rparr>,
            ls_results = ls_results ls @ [e],
            ls_totalGasUsed = ls_totalGasUsed ls + rcpt_GasUsed receipt,
            ls_gasFees = ls_gasFees ls + sint (rcpt_GasUsed receipt) * gasPrice,
            ls_bundleHash = ls_bundleHash ls @ hash_Bytes (tx_Hash tx)\<rparr>"
    by blast
  let ?h = "(ls_header ls)\<lparr>hdr_GasUsed := used'\<rparr>"
  from k have h: "eth_Coinbase (EthHeader b ?h) = cb" "eth_BaseFee (EthHeader b ?h) = hdr_BaseFee (ls_header ls)"
    using c by (simp_all add: EthHeader_keeps_def)
  have st: "ls_state ls' = st'" and rs: "ls_results ls' = ls_results ls @ [e]"
    using l by simp_all
  note f = processTransactionResult_fields [OF p, unfolded h]
  let ?tip = "fst (EffectiveGasTip b tx (hdr_BaseFee (ls_header ls)))"
  have 1: "e ''gasUsed'' = Some (JUint64 (rcpt_GasUsed receipt))"
    using f by simp
  have 2: "e ''coinbaseDiff'' =
      Some (JString (big_String (uint (GetBalance b (ls_state ls') cb) - uint (GetBalance b (ls_state ls) cb))))"
    using f st by simp
  have 3: "e ''gasFees'' = Some (JString (big_String (sint (rcpt_GasUsed receipt) * ?tip)))"
    using f by simp
  have 4: "e ''ethSentToCoinbase'' =
      Some (JString (big_String (uint (GetBalance b (ls_state ls') cb) - uint (GetBalance b (ls_state ls) cb) -
              sint (rcpt_GasUsed receipt) * ?tip)))"
    using f st by simp
  have 5: "unat (rcpt_GasUsed receipt) < 2 ^ 63 \<longrightarrow>
      e ''gasFees'' = Some (JString (big_String (int (unat (rcpt_GasUsed receipt)) * ?tip)))"
    using 3 sint_uint64_small [of "rcpt_GasUsed receipt"] by simp
  from g a [folded st] rs 1 2 3 4 5 show ?thesis by blast
qed

text \<open>
  C4 (as amended). Provided the header conversion carries the coinbase and the base fee
  over: an iteration that applies a transaction appends one entry, made from the receipt
  the engine answered, whose \<open>coinbaseDiff\<close> is the coinbase's balance in the state the
  engine left minus its balance in the state the iteration started from, whose
  \<open>gasFees\<close> is the receipt's gas used read as \<open>int64\<close> times the transaction's
  effective tip under the header's base fee, which is the gas used times the tip
  whenever the gas used is below \<open>2 ^ 63\<close>, and whose \<open>ethSentToCoinbase\<close> is the first
  minus the second. A call that returns a result reports as \<open>coinbaseDiff\<close> the balance
  after the loop minus the balance of the acquired state, as \<open>gasFees\<close> the sum of the
  fees of its transactions, each of which is the \<open>gasFees\<close> of the transaction's
  entry, and as \<open>ethSentToCoinbase\<close> the difference of the two.
\<close>

theorem coinbase_accounting:
  assumes "EthHeader_keeps b"
  shows "(bundle_step b cb sg i tx ls tr = (Ret ls', tr') \<and> hdr_Coinbase (ls_header ls) = cb \<longrightarrow>
            (\<exists>e msg tr1 receipt result gp' used'.
               GetEVM b (SetTxContext b (tx_Hash tx) i (ls_state ls)) (ls_header ls) tx tr = (Inr msg, tr1) \<and>
               ApplyTransactionWithResult b msg (ls_gp ls) (SetTxContext b (tx_Hash tx) i (ls_state ls))
                  (ls_header ls) tx = (Inr (receipt, result), gp', ls_state ls', used') \<and>
               ls_results ls' = ls_results ls @ [e] \<and>
               e ''gasUsed'' = Some (JUint64 (rcpt_GasUsed receipt)) \<and>
               e ''coinbaseDiff'' =
                 Some (JString (big_String (uint (GetBalance b (ls_state ls') cb) -
                                            uint (GetBalance b (ls_state ls) cb)))) \<and>
               e ''gasFees'' =
                 Some (JString (big_String (sint (rcpt_GasUsed receipt) *
                                            fst (EffectiveGasTip b tx (hdr_BaseFee (ls_header ls)))))) \<and>
               e ''ethSentToCoinbase'' =
                 Some (JString (big_String (uint (GetBalance b (ls_state ls') cb) -
                                            uint (GetBalance b (ls_state ls) cb) -
                                            sint (rcpt_GasUsed receipt) *
                                            fst (EffectiveGasTip b tx (hdr_BaseFee (ls_header ls)))))) \<and>
               (unat (rcpt_GasUsed receipt) < 2 ^ 63 \<longrightarrow>
                  e ''gasFees'' =
                    Some (JString (big_String (int (unat (rcpt_GasUsed receipt)) *
                                               fst (EffectiveGasTip b tx (hdr_BaseFee (ls_header ls))))))))) \<and>
         (CallBundle b ctx args = (Ret (Some m), trace) \<longrightarrow>
            (\<exists>txs st parent lsF rs.
               map (UnmarshalBinary b) (args_Txs args) = map Inr txs \<and>
               StateAndHeaderByNumberOrHash b (args_StateBlockNumberOrHash args) = Inr (Some st, parent) \<and>
               bundle_loop b ctx (hdr_Coinbase (bundle_header b args parent))
                  (bundle_signer b (bundle_header b args parent)) 0 txs
                  (bundle_init st (bundle_header b args parent))
                  (map EvUnmarshal (args_Txs args) @ [EvStateAndHeader (args_StateBlockNumberOrHash args)]) =
                 (Ret lsF, trace) \<and>
               m ''results'' = Some (RResults rs) \<and>
               m ''coinbaseDiff'' =
                 Some (RString (big_String
                   (uint (GetBalance b (ls_state lsF) (hdr_Coinbase (bundle_header b args parent))) -
                    uint (GetBalance b st (hdr_Coinbase (bundle_header b args parent)))))) \<and>
               m ''gasFees'' =
                 Some (RString (big_String
                   (sum_list (map (tx_fee b (hdr_BaseFee (bundle_header b args parent))) (zip txs rs))))) \<and>
               list_all2 (\<lambda>tx e. e ''gasFees'' =
                   Some (JString (big_String (tx_fee b (hdr_BaseFee (bundle_header b args parent)) (tx, e)))))
                 txs rs \<and>
               m ''ethSentToCoinbase'' =
                 Some (RString (big_String
                   (uint (GetBalance b (ls_state lsF) (hdr_Coinbase (bundle_header b args parent))) -
                    uint (GetBalance b st (hdr_Coinbase (bundle_header b args parent))) -
                    sum_list (map (tx_fee b (hdr_BaseFee (bundle_header b args parent))) (zip txs rs))))))) \<and>
         (unat (entry_gasUsed e0) < 2 ^ 63 \<longrightarrow>
            tx_fee b baseFee (tx0, e0) = int (unat (entry_gasUsed e0)) * fst (EffectiveGasTip b tx0 baseFee))"
proof (intro conjI impI)
  assume "bundle_step b cb sg i tx ls tr = (Ret ls', tr') \<and> hdr_Coinbase (ls_header ls) = cb"
  then show "\<exists>e msg tr1 receipt result gp' used'.
               GetEVM b (SetTxContext b (tx_Hash tx) i (ls_state ls)) (ls_header ls) tx tr = (Inr msg, tr1) \<and>
               ApplyTransactionWithResult b msg (ls_gp ls) (SetTxContext b (tx_Hash tx) i (ls_state ls))
                  (ls_header ls) tx = (Inr (receipt, result), gp', ls_state ls', used') \<and>
               ls_results ls' = ls_results ls @ [e] \<and>
               e ''gasUsed'' = Some (JUint64 (rcpt_GasUsed receipt)) \<and>
               e ''coinbaseDiff'' =
                 Some (JString (big_String (uint (GetBalance b (ls_state ls') cb) -
                                            uint (GetBalance b (ls_state ls) cb)))) \<and>
               e ''gasFees'' =
                 Some (JString (big_String (sint (rcpt_GasUsed receipt) *
                                            fst (EffectiveGasTip b tx (hdr_BaseFee (ls_header ls)))))) \<and>
               e ''ethSentToCoinbase'' =
                 Some (JString (big_String (uint (GetBalance b (ls_state ls') cb) -
                                            uint (GetBalance b (ls_state ls) cb) -
                                            sint (rcpt_GasUsed receipt) *
                                            fst (EffectiveGasTip b tx (hdr_BaseFee (ls_header ls)))))) \<and>
               (unat (rcpt_GasUsed receipt) < 2 ^ 63 \<longrightarrow>
                  e ''gasFees'' =
                    Some (JString (big_String (int (unat (rcpt_GasUsed receipt)) *
                                               fst (EffectiveGasTip b tx (hdr_BaseFee (ls_header ls)))))))"
    using bundle_step_accounting_engine [OF assms, of cb sg i tx ls tr ls' tr'] by blast
next
  assume "unat (entry_gasUsed e0) < 2 ^ 63"
  then show "tx_fee b baseFee (tx0, e0) = int (unat (entry_gasUsed e0)) * fst (EffectiveGasTip b tx0 baseFee)"
    by (simp only: tx_fee_def fst_conv snd_conv sint_uint64_small)
next
  assume c: "CallBundle b ctx args = (Ret (Some m), trace)"
  from CallBundle_Some [OF c] obtain txs st parent lsF where
    d: "map (UnmarshalBinary b) (args_Txs args) = map Inr txs"
    and s: "StateAndHeaderByNumberOrHash b (args_StateBlockNumberOrHash args) = Inr (Some st, parent)"
    and l: "bundle_loop b ctx (hdr_Coinbase (bundle_header b args parent))
                  (bundle_signer b (bundle_header b args parent)) 0 txs
                  (bundle_init st (bundle_header b args parent))
                  (map EvUnmarshal (args_Txs args) @ [EvStateAndHeader (args_StateBlockNumberOrHash args)]) =
             (Ret lsF, trace)"
    and p: "prepareFinalResult b (ls_results lsF) (ls_state lsF)
             (GetBalance b st (hdr_Coinbase (bundle_header b args parent)))
             (hdr_Coinbase (bundle_header b args parent)) (ls_gasFees lsF) (ls_totalGasUsed lsF)
             (EthHeader b parent) (ls_bundleHash lsF) = Ret m"
    by blast
  let ?h = "bundle_header b args parent"
  let ?i = "bundle_init st ?h"
  have ih: "ls_header ?i = ?h" "ls_results ?i = []" "ls_gasFees ?i = 0"
    by (simp_all add: bundle_init_def)
  from bundle_loop_adds [OF l] obtain new where
    n: "ls_results lsF = ls_results ?i @ new"
       "ls_gasFees lsF = ls_gasFees ?i + sum_list (map (tx_fee b (hdr_BaseFee (ls_header ?i))) (zip txs new))"
    by blast
  from bundle_loop_fees [OF assms l] ih(1) obtain new' where
    n': "ls_results lsF = ls_results ?i @ new'"
        "list_all2 (\<lambda>tx e. e ''gasFees'' = Some (JString (big_String (tx_fee b (hdr_BaseFee (ls_header ?i)) (tx, e)))))
             txs new'"
    by auto
  have r: "ls_results lsF = new" and r': "new' = new"
    using n(1) n'(1) ih(2) by simp_all
  have f: "ls_gasFees lsF = sum_list (map (tx_fee b (hdr_BaseFee ?h)) (zip txs new))"
    using n(2) ih by simp
  have a: "list_all2 (\<lambda>tx e. e ''gasFees'' = Some (JString (big_String (tx_fee b (hdr_BaseFee ?h) (tx, e))))) txs new"
    using n'(2) r' ih(1) by simp
  note pf = prepareFinalResult_fields [OF p]
  have m1: "m ''results'' = Some (RResults new)"
    using pf r by simp
  have m2: "m ''coinbaseDiff'' =
                 Some (RString (big_String
                   (uint (GetBalance b (ls_state lsF) (hdr_Coinbase ?h)) - uint (GetBalance b st (hdr_Coinbase ?h)))))"
    using pf by simp
  have m3: "m ''gasFees'' = Some (RString (big_String (sum_list (map (tx_fee b (hdr_BaseFee ?h)) (zip txs new)))))"
    using pf f by simp
  have m4: "m ''ethSentToCoinbase'' =
                 Some (RString (big_String
                   (uint (GetBalance b (ls_state lsF) (hdr_Coinbase ?h)) - uint (GetBalance b st (hdr_Coinbase ?h)) -
                    sum_list (map (tx_fee b (hdr_BaseFee ?h)) (zip txs new)))))"
    using pf f by simp
  from d s l m1 m2 m3 a m4
  show "\<exists>txs st parent lsF rs.
               map (UnmarshalBinary b) (args_Txs args) = map Inr txs \<and>
               StateAndHeaderByNumberOrHash b (args_StateBlockNumberOrHash args) = Inr (Some st, parent) \<and>
               bundle_loop b ctx (hdr_Coinbase (bundle_header b args parent))
                  (bundle_signer b (bundle_header b args parent)) 0 txs
                  (bundle_init st (bundle_header b args parent))
                  (map EvUnmarshal (args_Txs args) @ [EvStateAndHeader (args_StateBlockNumberOrHash args)]) =
                 (Ret lsF, trace) \<and>
               m ''results'' = Some (RResults rs) \<and>
               m ''coinbaseDiff'' =
                 Some (RString (big_String
                   (uint (GetBalance b (ls_state lsF) (hdr_Coinbase (bundle_header b args parent))) -
                    uint (GetBalance b st (hdr_Coinbase (bundle_header b args parent)))))) \<and>
               m ''gasFees'' =
                 Some (RString (big_String
                   (sum_list (map (tx_fee b (hdr_BaseFee (bundle_header b args parent))) (zip txs rs))))) \<and>
               list_all2 (\<lambda>tx e. e ''gasFees'' =
                   Some (JString (big_String (tx_fee b (hdr_BaseFee (bundle_header b args parent)) (tx, e)))))
                 txs rs \<and>
               m ''ethSentToCoinbase'' =
                 Some (RString (big_String
                   (uint (GetBalance b (ls_state lsF) (hdr_Coinbase (bundle_header b args parent))) -
                    uint (GetBalance b st (hdr_Coinbase (bundle_header b args parent))) -
                    sum_list (map (tx_fee b (hdr_BaseFee (bundle_header b args parent))) (zip txs rs)))))"
    by blast
qed


theorem coinbase_accounting_witness:
  "EthHeader_keeps demo_backend \<and>
   returns_result (fst (CallBundle demo_backend ctx_live (demo_args [[1, 10, 0], [2, 20, 1], [3, 5, 5]]))) \<and>
   (\<exists>D F. bundle_field (fst (CallBundle demo_backend ctx_live (demo_args [[1, 10, 0], [2, 20, 1], [3, 5, 5]]))) ''coinbaseDiff'' =
             Some (RString (big_String D)) \<and>
          bundle_field (fst (CallBundle demo_backend ctx_live (demo_args [[1, 10, 0], [2, 20, 1], [3, 5, 5]]))) ''gasFees'' =
             Some (RString (big_String F)) \<and>
          bundle_field (fst (CallBundle demo_backend ctx_live (demo_args [[1, 10, 0], [2, 20, 1], [3, 5, 5]]))) ''ethSentToCoinbase'' =
             Some (RString (big_String (D - F)))) \<and>
   bundle_field (fst (CallBundle demo_backend ctx_live (demo_args [[1, 10, 0], [2, 20, 1], [3, 5, 5]]))) ''coinbaseDiff'' =
     Some (RString ''80'') \<and>
   bundle_field (fst (CallBundle demo_backend ctx_live (demo_args [[1, 10, 0], [2, 20, 1], [3, 5, 5]]))) ''gasFees'' =
     Some (RString ''70'') \<and>
   bundle_field (fst (CallBundle demo_backend ctx_live (demo_args [[1, 10, 0], [2, 20, 1], [3, 5, 5]]))) ''ethSentToCoinbase'' =
     Some (RString ''10'') \<and>
   (case fst (bundle_step demo_backend 7 (101, 0) 0 demo_tx demo_ls []) of
      Ret l \<Rightarrow>
        (\<exists>e D F. ls_results l = [e] \<and> e ''coinbaseDiff'' = Some (JString (big_String D)) \<and>
           e ''gasFees'' = Some (JString (big_String F)) \<and>
           e ''ethSentToCoinbase'' = Some (JString (big_String (D - F))))
    | _ \<Rightarrow> False) \<and>
   tx_fee demo_backend None (demo_tx, [''gasUsed'' \<mapsto> JUint64 10]) = 20"
proof -
  let ?args = "demo_args [[1, 10, 0], [2, 20, 1], [3, 5, 5]]"
  let ?c = "CallBundle demo_backend ctx_live ?args"
  let ?e0 = "[''gasUsed'' \<mapsto> JUint64 10]"
  from demo_three_run have rr: "returns_result (fst ?c)" by (rule conjunct1)
  from rr returns_resultE [of ?c] obtain m tr where c: "?c = (Ret (Some m), tr)"
    by blast
  obtain q t where s0: "bundle_step demo_backend 7 (101, 0) 0 demo_tx demo_ls [] = (q, t)"
    by (cases "bundle_step demo_backend 7 (101, 0) 0 demo_tx demo_ls []")
  with demo_step_runs obtain l where q: "q = Ret l"
    by (cases q) simp_all
  have cb: "hdr_Coinbase (ls_header demo_ls) = 7"
    by (simp add: demo_ls_def bundle_init_def bundle_header_def demo_args_def demo_parent_def)
  have g: "unat (entry_gasUsed ?e0) < 2 ^ 63"
    by (simp add: entry_gasUsed_def)
  note inst = coinbase_accounting [OF demo_EthHeader_keeps,
      of 7 "(101, 0)" 0 demo_tx demo_ls "[]" l t ctx_live ?args m tr ?e0 None demo_tx]
  have pq: "bundle_step demo_backend 7 (101, 0) 0 demo_tx demo_ls [] = (Ret l, t) \<and>
            hdr_Coinbase (ls_header demo_ls) = 7"
    using s0 q cb by simp
  from inst [THEN conjunct1] pq
  have "\<exists>e msg tr1 receipt result gp' used'.
               GetEVM demo_backend (SetTxContext demo_backend (tx_Hash demo_tx) 0 (ls_state demo_ls))
                  (ls_header demo_ls) demo_tx [] = (Inr msg, tr1) \<and>
               ApplyTransactionWithResult demo_backend msg (ls_gp demo_ls)
                  (SetTxContext demo_backend (tx_Hash demo_tx) 0 (ls_state demo_ls))
                  (ls_header demo_ls) demo_tx = (Inr (receipt, result), gp', ls_state l, used') \<and>
               ls_results l = ls_results demo_ls @ [e] \<and>
               e ''gasUsed'' = Some (JUint64 (rcpt_GasUsed receipt)) \<and>
               e ''coinbaseDiff'' =
                 Some (JString (big_String (uint (GetBalance demo_backend (ls_state l) 7) -
                                            uint (GetBalance demo_backend (ls_state demo_ls) 7)))) \<and>
               e ''gasFees'' =
                 Some (JString (big_String (sint (rcpt_GasUsed receipt) *
                                            fst (EffectiveGasTip demo_backend demo_tx (hdr_BaseFee (ls_header demo_ls)))))) \<and>
               e ''ethSentToCoinbase'' =
                 Some (JString (big_String (uint (GetBalance demo_backend (ls_state l) 7) -
                                            uint (GetBalance demo_backend (ls_state demo_ls) 7) -
                                            sint (rcpt_GasUsed receipt) *
                                            fst (EffectiveGasTip demo_backend demo_tx (hdr_BaseFee (ls_header demo_ls)))))) \<and>
               (unat (rcpt_GasUsed receipt) < 2 ^ 63 \<longrightarrow>
                  e ''gasFees'' =
                    Some (JString (big_String (int (unat (rcpt_GasUsed receipt)) *
                                               fst (EffectiveGasTip demo_backend demo_tx (hdr_BaseFee (ls_header demo_ls)))))))"
    by (rule mp)
  then obtain e D F where e: "ls_results l = ls_results demo_ls @ [e]"
    "e ''coinbaseDiff'' = Some (JString (big_String D))"
    "e ''gasFees'' = Some (JString (big_String F))"
    "e ''ethSentToCoinbase'' = Some (JString (big_String (D - F)))"
    by (elim exE conjE) (rule that)
  have e1: "ls_results l = [e]"
    using e(1) by (simp add: demo_ls_def bundle_init_def)
  from e1 e(2,3,4) have A: "\<exists>e D F. ls_results l = [e] \<and> e ''coinbaseDiff'' = Some (JString (big_String D)) \<and>
           e ''gasFees'' = Some (JString (big_String F)) \<and>
           e ''ethSentToCoinbase'' = Some (JString (big_String (D - F)))"
    by blast
  from inst [THEN conjunct2, THEN conjunct1] c
  have "\<exists>txs st parent lsF rs.
               map (UnmarshalBinary demo_backend) (args_Txs ?args) = map Inr txs \<and>
               StateAndHeaderByNumberOrHash demo_backend (args_StateBlockNumberOrHash ?args) = Inr (Some st, parent) \<and>
               bundle_loop demo_backend ctx_live (hdr_Coinbase (bundle_header demo_backend ?args parent))
                  (bundle_signer demo_backend (bundle_header demo_backend ?args parent)) 0 txs
                  (bundle_init st (bundle_header demo_backend ?args parent))
                  (map EvUnmarshal (args_Txs ?args) @ [EvStateAndHeader (args_StateBlockNumberOrHash ?args)]) =
                 (Ret lsF, tr) \<and>
               m ''results'' = Some (RResults rs) \<and>
               m ''coinbaseDiff'' =
                 Some (RString (big_String
                   (uint (GetBalance demo_backend (ls_state lsF) (hdr_Coinbase (bundle_header demo_backend ?args parent))) -
                    uint (GetBalance demo_backend st (hdr_Coinbase (bundle_header demo_backend ?args parent)))))) \<and>
               m ''gasFees'' =
                 Some (RString (big_String
                   (sum_list (map (tx_fee demo_backend (hdr_BaseFee (bundle_header demo_backend ?args parent))) (zip txs rs))))) \<and>
               list_all2 (\<lambda>tx e. e ''gasFees'' =
                   Some (JString (big_String (tx_fee demo_backend (hdr_BaseFee (bundle_header demo_backend ?args parent)) (tx, e)))))
                 txs rs \<and>
               m ''ethSentToCoinbase'' =
                 Some (RString (big_String
                   (uint (GetBalance demo_backend (ls_state lsF) (hdr_Coinbase (bundle_header demo_backend ?args parent))) -
                    uint (GetBalance demo_backend st (hdr_Coinbase (bundle_header demo_backend ?args parent))) -
                    sum_list (map (tx_fee demo_backend (hdr_BaseFee (bundle_header demo_backend ?args parent))) (zip txs rs)))))"
    by (rule mp)
  then obtain D F where
    b: "m ''coinbaseDiff'' = Some (RString (big_String D))"
       "m ''gasFees'' = Some (RString (big_String F))"
       "m ''ethSentToCoinbase'' = Some (RString (big_String (D - F)))"
    by (elim exE conjE) (rule that)
  have bf: "\<And>k. bundle_field (fst ?c) k = m k"
    using c by (simp add: bundle_field_def)
  from b have B: "\<exists>D F. bundle_field (fst ?c) ''coinbaseDiff'' = Some (RString (big_String D)) \<and>
          bundle_field (fst ?c) ''gasFees'' = Some (RString (big_String F)) \<and>
          bundle_field (fst ?c) ''ethSentToCoinbase'' = Some (RString (big_String (D - F)))"
    unfolding bf by blast
  from inst [THEN conjunct2, THEN conjunct2] g
  have "tx_fee demo_backend None (demo_tx, ?e0) =
          int (unat (entry_gasUsed ?e0)) * fst (EffectiveGasTip demo_backend demo_tx None)"
    by (rule mp)
  then have C: "tx_fee demo_backend None (demo_tx, ?e0) = 20"
    by (simp add: entry_gasUsed_def demo_backend_def)
  have S: "(case fst (bundle_step demo_backend 7 (101, 0) 0 demo_tx demo_ls []) of
      Ret l \<Rightarrow>
        (\<exists>e D F. ls_results l = [e] \<and> e ''coinbaseDiff'' = Some (JString (big_String D)) \<and>
           e ''gasFees'' = Some (JString (big_String F)) \<and>
           e ''ethSentToCoinbase'' = Some (JString (big_String (D - F))))
    | _ \<Rightarrow> False)"
    using s0 q A by simp
  from demo_EthHeader_keeps rr B demo_three_accounts S C show ?thesis
    by (intro conjI) simp_all
qed

lemma demo_big_entry:
  "\<exists>e. processTransactionResult demo_backend demo_tx demo_receipt_big demo_result (101, 0)
          (EthHeader demo_backend demo_parent) 1000 (1020::nat) = Ret e \<and>
        entry_gasUsed e = 9223372036854775808 \<and>
        entry_string e ''gasFees'' = Some ''-18446744073709551616''"
proof -
  let ?P = "processTransactionResult demo_backend demo_tx demo_receipt_big demo_result (101, 0)
          (EthHeader demo_backend demo_parent) 1000 (1020::nat)"
  from processTransactionResult_Ret [of demo_backend demo_tx demo_receipt_big demo_result "(101, 0)"
      "EthHeader demo_backend demo_parent" 1000 "1020::nat"]
  obtain e where e: "?P = Ret e"
    by (auto simp: demo_receipt_big_def)
  have b: "eth_BaseFee (EthHeader demo_backend demo_parent) = None"
    by (simp add: demo_backend_def demo_parent_def)
  have t: "fst (EffectiveGasTip demo_backend demo_tx None) = 2"
    by (simp add: demo_backend_def)
  have n: "big_String (- 18446744073709551616) = ''-18446744073709551616''"
    by (simp add: big_String_def dec_nat.simps char_of_eq_iff)
  from processTransactionResult_fields [OF e]
  have "e ''gasFees'' = Some (JString (big_String (sint (rcpt_GasUsed demo_receipt_big) *
          fst (EffectiveGasTip demo_backend demo_tx (eth_BaseFee (EthHeader demo_backend demo_parent))))))"
    by blast
  then have "e ''gasFees'' = Some (JString ''-18446744073709551616'')"
    unfolding b t by (simp add: demo_receipt_big_def n)
  then have 1: "entry_string e ''gasFees'' = Some ''-18446744073709551616''"
    by (simp add: entry_string_def)
  have 2: "entry_gasUsed e = 9223372036854775808"
    using entry_gasUsed_processed [OF e] by (simp add: demo_receipt_big_def)
  from e 1 2 show ?thesis by blast
qed

text \<open>
  The claim as stated fails: for a receipt whose gas used is \<open>2 ^ 63\<close> and a tip of 2,
  the entry reports the \<open>gasFees\<close> \<open>-18446744073709551616\<close>, while the gas used times
  the tip is \<open>18446744073709551616\<close>.
\<close>

theorem gasFees_int64_counterexample:
  "entry_gasUsed (the_entry (processTransactionResult demo_backend demo_tx demo_receipt_big demo_result
      (101, 0) (EthHeader demo_backend demo_parent) 1000 (1020::nat))) = 9223372036854775808 \<and>
   entry_string (the_entry (processTransactionResult demo_backend demo_tx demo_receipt_big demo_result
      (101, 0) (EthHeader demo_backend demo_parent) 1000 (1020::nat))) ''gasFees'' =
     Some ''-18446744073709551616'' \<and>
   fst (EffectiveGasTip demo_backend demo_tx (eth_BaseFee (EthHeader demo_backend demo_parent))) = 2 \<and>
   big_String (int (unat (9223372036854775808 :: uint64)) * 2) = ''18446744073709551616''"
proof -
  have t: "fst (EffectiveGasTip demo_backend demo_tx (eth_BaseFee (EthHeader demo_backend demo_parent))) = 2"
    by (simp add: demo_backend_def)
  have n: "big_String (int (unat (9223372036854775808 :: uint64)) * 2) = ''18446744073709551616''"
    by (simp add: big_String_def dec_nat.simps char_of_eq_iff)
  from demo_big_entry obtain e where
    e: "processTransactionResult demo_backend demo_tx demo_receipt_big demo_result (101, 0)
          (EthHeader demo_backend demo_parent) 1000 (1020::nat) = Ret e"
       "entry_gasUsed e = 9223372036854775808"
       "entry_string e ''gasFees'' = Some ''-18446744073709551616''"
    by blast
  have "the_entry (processTransactionResult demo_backend demo_tx demo_receipt_big demo_result (101, 0)
          (EthHeader demo_backend demo_parent) 1000 (1020::nat)) = e"
    using e(1) by (simp add: the_entry_def)
  with e(2,3) t n show ?thesis by simp
qed

section \<open>A lookup that finds nothing\<close>

lemma simulateTx_nil_transaction:
  assumes "GetTransaction b txHash = Inr None"
  shows "simulateTx b txHash = (Panic NilDereference, [EvGetTransaction txHash])"
  using assms by (simp add: simulateTx_def)

text \<open>
  C9 (the code fails the claim). The lookup answers the unknown hash 2 with a nil
  transaction and a nil error. \<open>simulateTx\<close> tests the error only and goes on to read
  the gas limit of the nil transaction: the call panics instead of returning an error.
\<close>

theorem simulateTx_unknown_transaction_panics:
  "GetTransaction demo_backend_nil 2 = Inr None \<and>
   simulateTx demo_backend_nil 2 = (Panic NilDereference, [EvGetTransaction 2])"
proof -
  have g: "GetTransaction demo_backend_nil 2 = Inr None"
    by (simp add: demo_backend_nil_def)
  from g simulateTx_nil_transaction [OF g] show ?thesis by simp
qed

end
